theory Spec2Isabelle
  imports Main "HOL-Library.Word"
begin

section \<open>Python values used by the indexer\<close>

text \<open>
  Byte strings (\<^verbatim>\<open>bytes\<close>, \<^verbatim>\<open>HexBytes\<close>) are lists of 8-bit words, text is
  \<^typ>\<open>string\<close>, Python's unbounded integers are \<^typ>\<open>int\<close> (or \<^typ>\<open>nat\<close> where the
  source can only produce a non-negative value). Every exception the modelled code can
  raise is a value of \<open>py_error\<close>, returned on the left of a sum.
\<close>

type_synonym byte = "8 word"

datatype py_error = IndexError | ValueError | OverflowError | ZeroDivisionError | IntegrityError

subsection \<open>Characters\<close>

definition is_space :: "char \<Rightarrow> bool" where
  \<comment> \<open>ASCII white space, as \<^verbatim>\<open>bytes.fromhex\<close> skips it\<close>
  "is_space c = (of_char c \<in> {9, 10, 11, 12, 13, 32 :: nat})"

definition is_upper :: "nat \<Rightarrow> bool" where
  \<comment> \<open>the code points below 256 that \<^verbatim>\<open>str.lower\<close> changes: A to Z, and the
      accented capitals 192 to 222 without the multiplication sign\<close>
  "is_upper n = (65 \<le> n \<and> n \<le> 90 \<or> 192 \<le> n \<and> n \<le> 222 \<and> n \<noteq> 215)"

definition py_lower :: "char \<Rightarrow> char" where
  \<comment> \<open>\<^verbatim>\<open>str.lower\<close> on one character\<close>
  "py_lower c = (let n = of_char c :: nat in if is_upper n then char_of (n + 32) else c)"

definition py_upper :: "char \<Rightarrow> char" where
  \<comment> \<open>\<^verbatim>\<open>str.upper\<close> on one ASCII character (it is applied to hexadecimal digits only)\<close>
  "py_upper c =
     (let n = of_char c :: nat in if 97 \<le> n \<and> n \<le> 122 then char_of (n - 32) else c)"

definition lower :: "string \<Rightarrow> string" where
  "lower s = map py_lower s"

definition hex_digit :: "nat \<Rightarrow> char" where
  \<comment> \<open>the lower-case digit that \<^verbatim>\<open>bytes.hex\<close> and the format code \<^verbatim>\<open>x\<close> print\<close>
  "hex_digit n = ''0123456789abcdef'' ! (n mod 16)"

definition hex_val :: "char \<Rightarrow> nat option" where
  \<comment> \<open>value of a hexadecimal digit of either case, \<open>None\<close> for any other character\<close>
  "hex_val c =
     (let n = of_char c :: nat in
      if 48 \<le> n \<and> n \<le> 57 then Some (n - 48)
      else if 97 \<le> n \<and> n \<le> 102 then Some (n - 87)
      else if 65 \<le> n \<and> n \<le> 70 then Some (n - 55)
      else None)"

definition startswith :: "string \<Rightarrow> string \<Rightarrow> bool" where
  "startswith s p = (take (length p) s = p)"

definition zfill :: "nat \<Rightarrow> string \<Rightarrow> string" where
  \<comment> \<open>\<^verbatim>\<open>str.zfill\<close>: pads on the left, after a leading sign, and never truncates\<close>
  "zfill w s =
     (if w \<le> length s then s
      else (case s of
              [] \<Rightarrow> replicate w (CHR ''0'')
            | c # cs \<Rightarrow>
                if c = CHR ''+'' \<or> c = CHR ''-''
                then c # replicate (w - length s) (CHR ''0'') @ cs
                else replicate (w - length s) (CHR ''0'') @ s))"

subsection \<open>Bytes and integers\<close>

fun bytes_hex :: "byte list \<Rightarrow> string" where
  \<comment> \<open>\<^verbatim>\<open>bytes.hex()\<close>: two lower-case digits per byte, no prefix\<close>
  "bytes_hex [] = []"
| "bytes_hex (b # bs) = hex_digit (unat b div 16) # hex_digit (unat b mod 16) # bytes_hex bs"

fun bytes_fromhex :: "string \<Rightarrow> py_error + byte list" where
  \<comment> \<open>\<^verbatim>\<open>bytes.fromhex\<close>: white space may separate the pairs of digits; anything else,
      or a digit without its partner, raises ValueError\<close>
  "bytes_fromhex [] = Inr []"
| "bytes_fromhex [c] = (if is_space c then Inr [] else Inl ValueError)"
| "bytes_fromhex (c # d # ds) =
     (if is_space c then bytes_fromhex (d # ds)
      else (case (hex_val c, hex_val d) of
              (Some hi, Some lo) \<Rightarrow>
                (case bytes_fromhex ds of
                   Inl e \<Rightarrow> Inl e
                 | Inr bs \<Rightarrow> Inr (of_nat (16 * hi + lo) # bs))
            | _ \<Rightarrow> Inl ValueError))"

fun be_bytes :: "nat \<Rightarrow> nat \<Rightarrow> byte list" where
  \<comment> \<open>the \<open>n\<close> low-order bytes of a number, most significant first\<close>
  "be_bytes 0 k = []"
| "be_bytes (Suc n) k = be_bytes n (k div 256) @ [of_nat k]"

definition int_to_bytes :: "nat \<Rightarrow> int \<Rightarrow> py_error + byte list" where
  \<comment> \<open>\<^verbatim>\<open>int.to_bytes(n, 'big')\<close>: a negative number or one that needs more than
      \<open>n\<close> bytes raises OverflowError\<close>
  "int_to_bytes n i =
     (if i < 0 \<or> 256 ^ n \<le> i then Inl OverflowError else Inr (be_bytes n (nat i)))"

definition int_from_bytes :: "byte list \<Rightarrow> nat" where
  \<comment> \<open>\<^verbatim>\<open>int.from_bytes(bs, 'big')\<close>\<close>
  "int_from_bytes bs = foldl (\<lambda>acc b. 256 * acc + unat b) 0 bs"

definition and_then :: "py_error + 'a \<Rightarrow> ('a \<Rightarrow> py_error + 'b) \<Rightarrow> py_error + 'b" where
  \<comment> \<open>sequencing: an exception in the first step leaves the function\<close>
  "and_then m f = (case m of Inl e \<Rightarrow> Inl e | Inr x \<Rightarrow> f x)"

definition py_nth :: "'a list \<Rightarrow> nat \<Rightarrow> py_error + 'a" where
  \<comment> \<open>\<^verbatim>\<open>xs[i]\<close> for a non-negative literal index\<close>
  "py_nth xs i = (if i < length xs then Inr (xs ! i) else Inl IndexError)"

definition digest_bytes :: "256 word \<Rightarrow> byte list" where
  \<comment> \<open>the 32 bytes of a keccak-256 digest\<close>
  "digest_bytes w = be_bytes 32 (unat w)"

section \<open>Identifier derivation (\<^verbatim>\<open>stage2/src/ctf/derive.py\<close>)\<close>

text \<open>
  \<^verbatim>\<open>Web3.keccak\<close> is a parameter \<open>K\<close> of every function that hashes: a function from
  byte strings to 256-bit digests. Nothing is assumed about it.
\<close>

definition add_0x :: "string \<Rightarrow> string" where
  \<comment> \<open>\<^verbatim>\<open>if not s.startswith('0x'): s = '0x' + s\<close>\<close>
  "add_0x s = (if startswith s ''0x'' then s else ''0x'' @ s)"

definition get_collection_id :: "(byte list \<Rightarrow> 256 word) \<Rightarrow> string \<Rightarrow> string \<Rightarrow> int \<Rightarrow> py_error + string" where
  "get_collection_id K parent_collection_id condition_id index_set =
     (case bytes_fromhex (zfill 64 (drop 2 (add_0x parent_collection_id))) of
        Inl e \<Rightarrow> Inl e
      | Inr parent_bytes \<Rightarrow>
     (case bytes_fromhex (zfill 64 (drop 2 (add_0x condition_id))) of
        Inl e \<Rightarrow> Inl e
      | Inr condition_bytes \<Rightarrow>
     (case int_to_bytes 32 index_set of
        Inl e \<Rightarrow> Inl e
      | Inr index_bytes \<Rightarrow>
          Inr (''0x'' @ bytes_hex (digest_bytes (K (parent_bytes @ condition_bytes @ index_bytes)))))))"

definition get_position_id :: "(byte list \<Rightarrow> 256 word) \<Rightarrow> string \<Rightarrow> string \<Rightarrow> py_error + string" where
  "get_position_id K collateral_token collection_id =
     (case bytes_fromhex (zfill 40 (drop 2 (add_0x collateral_token))) of
        Inl e \<Rightarrow> Inl e
      | Inr token_bytes \<Rightarrow>
     (case bytes_fromhex (zfill 64 (drop 2 (add_0x collection_id))) of
        Inl e \<Rightarrow> Inl e
      | Inr collection_bytes \<Rightarrow>
          Inr (''0x'' @ bytes_hex (digest_bytes (K (token_bytes @ collection_bytes))))))"


definition is_hex_text :: "string \<Rightarrow> bool" where
  \<comment> \<open>text made of hexadecimal digits only, of either case\<close>
  "is_hex_text s = list_all (\<lambda>c. hex_val c \<noteq> None) s"

definition lpad :: "nat \<Rightarrow> string \<Rightarrow> string" where
  \<comment> \<open>a text padded on the left with zeros to a width\<close>
  "lpad w s = replicate (w - length s) (CHR ''0'') @ s"

definition variants :: "nat \<Rightarrow> string \<Rightarrow> string set" where
  \<comment> \<open>the ways of writing one hexadecimal value of canonical width \<open>w\<close>: as it is,
      with the prefix, padded, and both\<close>
  "variants w s = {s, ''0x'' @ s, lpad w s, ''0x'' @ lpad w s}"

section \<open>Number formatting and decimal arithmetic\<close>

function hex_of_nat :: "nat \<Rightarrow> string" where
  \<comment> \<open>the digits that the format code \<^verbatim>\<open>x\<close> prints for a non-negative integer\<close>
  "hex_of_nat n = (if n < 16 then [hex_digit n] else hex_of_nat (n div 16) @ [hex_digit (n mod 16)])"
  by pat_completeness auto
termination
  by (relation "measure id") auto

function dec_of_nat :: "nat \<Rightarrow> string" where
  \<comment> \<open>\<^verbatim>\<open>str(n)\<close> for a non-negative integer\<close>
  "dec_of_nat n =
     (if n < 10 then [''0123456789'' ! n] else dec_of_nat (n div 10) @ [''0123456789'' ! (n mod 10)])"
  by pat_completeness auto
termination
  by (relation "measure id") auto

declare hex_of_nat.simps [simp del] dec_of_nat.simps [simp del]

definition format_064x :: "int \<Rightarrow> string" where
  \<comment> \<open>\<^verbatim>\<open>f"{i:064x}"\<close>: zero-padded to 64 characters, the sign included in the width;
      longer numbers are not truncated\<close>
  "format_064x i =
     (if i < 0 then CHR ''-'' # lpad 63 (hex_of_nat (nat (- i))) else lpad 64 (hex_of_nat (nat i)))"

definition rstrip :: "char \<Rightarrow> string \<Rightarrow> string" where
  \<comment> \<open>\<^verbatim>\<open>str.rstrip\<close> with a single character\<close>
  "rstrip c s = rev (dropWhile (\<lambda>x. x = c) (rev s))"

text \<open>
  \<^verbatim>\<open>decimal.Decimal\<close> in the default context (28 significant digits, ties to even).
  A value is a coefficient and an exponent of ten. The quotient of two integers follows
  the library's division: one or two guard digits, a sticky last digit when the division
  leaves a remainder, trailing zeros removed when it does not, then rounding to the
  precision.
\<close>

datatype decimal = Dec (coeff: nat) (expo: int)

definition round_half_even :: "nat \<Rightarrow> nat \<Rightarrow> nat" where
  \<comment> \<open>\<open>n / d\<close> rounded to an integer, ties to the even neighbour\<close>
  "round_half_even n d =
     (let q = n div d; r = n mod d in
      if 2 * r < d then q else if d < 2 * r then q + 1 else if even q then q else q + 1)"

function strip_zeros :: "nat \<Rightarrow> int \<Rightarrow> decimal" where
  \<comment> \<open>an exact quotient is brought as close to exponent 0 as its trailing zeros allow\<close>
  "strip_zeros c e = (if e < 0 \<and> c mod 10 = 0 then strip_zeros (c div 10) (e + 1) else Dec c e)"
  by pat_completeness auto
termination
  by (relation "measure (\<lambda>(c, e). nat (- e))") auto

declare strip_zeros.simps [simp del]

definition dec_fix :: "decimal \<Rightarrow> decimal" where
  \<comment> \<open>rounding of a coefficient of more than 28 digits\<close>
  "dec_fix x =
     (let d = length (dec_of_nat (coeff x)) in
      if 28 < d then
        (let c = round_half_even (coeff x) (10 ^ (d - 28)) in
         if 28 < length (dec_of_nat c) then Dec (c div 10) (expo x + int (d - 28) + 1)
         else Dec c (expo x + int (d - 28)))
      else x)"

definition decimal_div :: "nat \<Rightarrow> nat \<Rightarrow> py_error + decimal" where
  \<comment> \<open>\<^verbatim>\<open>Decimal(a) / Decimal(b)\<close>\<close>
  "decimal_div a b =
     (if b = 0 then Inl ZeroDivisionError
      else if a = 0 then Inr (Dec 0 0)
      else
        (let shift = int (length (dec_of_nat b)) - int (length (dec_of_nat a)) + 29;
             n = (if 0 \<le> shift then a * 10 ^ nat shift else a);
             d = (if 0 \<le> shift then b else b * 10 ^ nat (- shift));
             q = n div d
         in if n mod d \<noteq> 0 then Inr (dec_fix (Dec (if q mod 5 = 0 then q + 1 else q) (- shift)))
            else Inr (dec_fix (strip_zeros q (- shift)))))"

definition format_6f :: "decimal \<Rightarrow> string" where
  \<comment> \<open>\<^verbatim>\<open>f"{x:.6f}"\<close>: six digits after the point, ties to even\<close>
  "format_6f x =
     (let q = (if - 6 \<le> expo x then coeff x * 10 ^ nat (expo x + 6)
               else round_half_even (coeff x) (10 ^ nat (- 6 - expo x)))
      in dec_of_nat (q div 1000000) @ ''.'' @ lpad 6 (dec_of_nat (q mod 1000000)))"

definition price_text :: "decimal \<Rightarrow> string" where
  \<comment> \<open>\<^verbatim>\<open>f"{price:.6f}".rstrip('0').rstrip('.')\<close>\<close>
  "price_text x = rstrip (CHR ''.'') (rstrip (CHR ''0'') (format_6f x))"

section \<open>Addresses (\<^verbatim>\<open>Web3.to_checksum_address\<close>)\<close>

text \<open>
  The library function, in terms of the hash parameter: the text must be 40 hexadecimal
  digits after an optional prefix, else ValueError; the result is the lower-case address
  with each letter capitalised where the matching digit of the hash of the lower-case
  digits is above 7.
\<close>

definition strip_0x :: "string \<Rightarrow> string" where
  "strip_0x s = (if startswith s ''0x'' \<or> startswith s ''0X'' then drop 2 s else s)"

definition ascii_bytes :: "string \<Rightarrow> byte list" where
  "ascii_bytes s = map (\<lambda>c. of_nat (of_char c)) s"

definition nibble :: "256 word \<Rightarrow> nat \<Rightarrow> nat" where
  \<comment> \<open>the \<open>i\<close>-th hexadecimal digit of a digest, from the left\<close>
  "nibble w i = (unat w div 16 ^ (63 - i)) mod 16"

definition checksum_encode :: "(byte list \<Rightarrow> 256 word) \<Rightarrow> string \<Rightarrow> string" where
  "checksum_encode K h =
     map (\<lambda>(i, c). if 7 < nibble (K (ascii_bytes h)) i then py_upper c else c)
         (zip [0..<length h] h)"

definition to_checksum_address :: "(byte list \<Rightarrow> 256 word) \<Rightarrow> string \<Rightarrow> py_error + string" where
  "to_checksum_address K s =
     (let h = lower (strip_0x s)
      in if length h = 40 \<and> is_hex_text h then Inr (''0x'' @ checksum_encode K h)
         else Inl ValueError)"

section \<open>Trade-fill decoder (\<^verbatim>\<open>stage2/src/ctf/trade_decoder.py\<close>)\<close>

definition CTF_EXCHANGE :: string where
  "CTF_EXCHANGE = ''0x4bFb41d5B3570DeFd03C39a9A4D8dE6Bd8B8982E''"

definition NEGRISK_CTF_EXCHANGE :: string where
  "NEGRISK_CTF_EXCHANGE = ''0xC5d563A36AE78145C45a50134d48A1215220f80a''"

definition ORDER_FILLED_SIGNATURE :: string where
  "ORDER_FILLED_SIGNATURE =
     ''OrderFilled(bytes32,address,address,uint256,uint256,uint256,uint256,uint256)''"

definition ORDER_FILLED_TOPIC :: "(byte list \<Rightarrow> 256 word) \<Rightarrow> string" where
  "ORDER_FILLED_TOPIC K = ''0x'' @ bytes_hex (digest_bytes (K (ascii_bytes ORDER_FILLED_SIGNATURE)))"

text \<open>
  A log entry. web3 delivers topics, data and transaction hash as \<^verbatim>\<open>HexBytes\<close>; the
  decoder also accepts them as text, so both forms are values of \<open>hexval\<close>. The
  address is text.
\<close>

datatype hexval = HexBytes "byte list" | HexStr string

record log =
  address :: string
  topics :: "hexval list"
  data :: hexval
  transactionHash :: hexval
  logIndex :: int
  blockNumber :: int

record Trade =
  tx_hash :: string
  log_index :: int
  exchange :: string
  order_hash :: string
  maker :: string
  taker :: string
  maker_asset_id :: string
  taker_asset_id :: string
  maker_amount :: string
  taker_amount :: string
  fee :: string
  price :: string
  token_id :: string
  side :: string

fun hexval_text :: "hexval \<Rightarrow> string" where
  \<comment> \<open>\<^verbatim>\<open>v.hex() if isinstance(v, bytes) else v\<close>\<close>
  "hexval_text (HexBytes b) = bytes_hex b"
| "hexval_text (HexStr s) = s"

definition last40 :: "string \<Rightarrow> string" where
  \<comment> \<open>the slice \<^verbatim>\<open>[-40:]\<close>\<close>
  "last40 s = drop (length s - 40) s"

fun data_bytes_of :: "hexval \<Rightarrow> py_error + byte list" where
  "data_bytes_of (HexBytes b) = Inr b"
| "data_bytes_of (HexStr s) = bytes_fromhex (drop 2 (add_0x s))"

definition py_slice :: "nat \<Rightarrow> nat \<Rightarrow> 'a list \<Rightarrow> 'a list" where
  \<comment> \<open>\<^verbatim>\<open>xs[i:j]\<close>: shorter when the list ends before \<open>j\<close>\<close>
  "py_slice i j xs = take (j - i) (drop i xs)"

definition exchange_of :: "(byte list \<Rightarrow> 256 word) \<Rightarrow> string \<Rightarrow> py_error + string" where
  \<comment> \<open>the exchange constant that the checksummed log address matches, else the address\<close>
  "exchange_of K log_address =
     and_then (to_checksum_address K CTF_EXCHANGE) (\<lambda>ctf.
       if log_address = ctf then Inr CTF_EXCHANGE
       else and_then (to_checksum_address K NEGRISK_CTF_EXCHANGE) (\<lambda>neg.
         if log_address = neg then Inr NEGRISK_CTF_EXCHANGE else Inr log_address))"

definition fill_price :: "nat \<Rightarrow> nat \<Rightarrow> py_error + decimal" where
  \<comment> \<open>collateral amount over token amount, zero when no tokens were filled\<close>
  "fill_price collateral tokens =
     (if 0 < tokens then decimal_div collateral tokens else Inr (Dec 0 0))"

definition decode_order_filled :: "(byte list \<Rightarrow> 256 word) \<Rightarrow> log \<Rightarrow> py_error + Trade" where
  "decode_order_filled K lg =
     and_then (to_checksum_address K (address lg)) (\<lambda>log_address.
     and_then (exchange_of K log_address) (\<lambda>exchange.
     and_then (py_nth (topics lg) 1) (\<lambda>topic1.
     and_then (py_nth (topics lg) 2) (\<lambda>topic2.
     and_then (to_checksum_address K (''0x'' @ last40 (hexval_text topic2))) (\<lambda>maker.
     and_then (py_nth (topics lg) 3) (\<lambda>topic3.
     and_then (to_checksum_address K (''0x'' @ last40 (hexval_text topic3))) (\<lambda>taker.
     and_then (data_bytes_of (data lg)) (\<lambda>data_bytes.
       let maker_asset_id = int_from_bytes (py_slice 0 32 data_bytes);
           taker_asset_id = int_from_bytes (py_slice 32 64 data_bytes);
           maker_amount_filled = int_from_bytes (py_slice 64 96 data_bytes);
           taker_amount_filled = int_from_bytes (py_slice 96 128 data_bytes);
           fee = int_from_bytes (py_slice 128 160 data_bytes)
       in
       and_then (if maker_asset_id = 0
            then fill_price maker_amount_filled taker_amount_filled
            else fill_price taker_amount_filled maker_amount_filled) (\<lambda>price.
         Inr \<lparr> tx_hash = hexval_text (transactionHash lg),
               log_index = logIndex lg,
               exchange = exchange,
               order_hash = hexval_text topic1,
               maker = maker,
               taker = taker,
               maker_asset_id = dec_of_nat maker_asset_id,
               taker_asset_id = dec_of_nat taker_asset_id,
               maker_amount = dec_of_nat maker_amount_filled,
               taker_amount = dec_of_nat taker_amount_filled,
               fee = dec_of_nat fee,
               price = price_text price,
               token_id = ''0x'' @ format_064x (int (if maker_asset_id = 0 then taker_asset_id
                                                       else maker_asset_id)),
               side = (if maker_asset_id = 0 then ''BUY'' else ''SELL'') \<rparr>)))))))))"

definition is_address :: "string \<Rightarrow> bool" where
  \<comment> \<open>text that \<open>to_checksum_address\<close> accepts: 40 hexadecimal digits after an optional prefix\<close>
  "is_address s = (length (strip_0x s) = 40 \<and> is_hex_text (strip_0x s))"

section \<open>Storage (\<^verbatim>\<open>stage2/src/db/schema.py\<close>, \<^verbatim>\<open>stage2/src/db/store.py\<close>)\<close>

text \<open>
  The tables that the indexer reads and writes. A market is the dictionary that the
  market queries return; a trade record is the dictionary that the indexer builds: the
  decoded trade and the five values added when it is resolved. A stored trade is a
  trade record with its row id. The columns filled by the engine's clock
  (\<^verbatim>\<open>created_at\<close>, \<^verbatim>\<open>updated_at\<close>) are left out.
\<close>

record market =
  market_id :: nat
  event_id :: "nat option"
  slug :: string
  condition_id :: string
  question_id :: string
  oracle_address :: string
  collateral_token :: string
  yes_token_id :: string
  no_token_id :: string
  enable_neg_risk :: bool
  status :: string
  title :: "string option"
  description :: "string option"

record trade_record = Trade +
  trade_market_id :: nat
  block_number :: int
  timestamp :: string
  outcome :: string
  trade_size :: string

record db =
  markets :: "market list"
  trades :: "(nat \<times> trade_record) list"
  trades_seq :: nat
  sync_state :: "string \<rightharpoonup> int"

text \<open>
  A connection: the state that its statements see and change (\<open>pending\<close>), the state
  that is on disk (\<open>durable\<close>), and the successive on-disk states since the connection was
  opened (\<open>journal\<close>, the last one being \<open>durable\<close>). Statements run in an open
  transaction until \<open>commit\<close>.
\<close>

record conn =
  pending :: db
  durable :: db
  journal :: "db list"

definition connect :: "db \<Rightarrow> conn" where
  "connect d = \<lparr> pending = d, durable = d, journal = [d] \<rparr>"

definition commit :: "conn \<Rightarrow> conn" where
  "commit c = c\<lparr> durable := pending c, journal := journal c @ [pending c] \<rparr>"

definition trade_key :: "'a trade_record_scheme \<Rightarrow> string \<times> int" where
  \<comment> \<open>the columns of \<^verbatim>\<open>UNIQUE(tx_hash, log_index)\<close>\<close>
  "trade_key t = (tx_hash t, log_index t)"

definition sql_insert_trade :: "db \<Rightarrow> trade_record \<Rightarrow> py_error + db" where
  \<comment> \<open>the INSERT statement: refused, with nothing changed, when the key is stored already\<close>
  "sql_insert_trade d t =
     (if \<exists>r \<in> set (trades d). trade_key (snd r) = trade_key t then Inl IntegrityError
      else Inr (d\<lparr> trades := trades d @ [(trades_seq d + 1, t)], trades_seq := trades_seq d + 1 \<rparr>))"

fun insert_rows :: "db \<Rightarrow> trade_record list \<Rightarrow> nat \<Rightarrow> py_error + nat \<times> db" where
  \<comment> \<open>the loop of \<open>insert_trades\<close>; only IntegrityError is caught\<close>
  "insert_rows d [] inserted_count = Inr (inserted_count, d)"
| "insert_rows d (t # ts) inserted_count =
     (case sql_insert_trade d t of
        Inr d' \<Rightarrow> insert_rows d' ts (inserted_count + 1)
      | Inl e \<Rightarrow> if e = IntegrityError then insert_rows d ts inserted_count else Inl e)"

definition insert_trades :: "conn \<Rightarrow> trade_record list \<Rightarrow> py_error + nat \<times> conn" where
  "insert_trades c ts =
     (if ts = [] then Inr (0, c)
      else and_then (insert_rows (pending c) ts 0)
             (\<lambda>(inserted_count, d). Inr (inserted_count, commit (c\<lparr> pending := d \<rparr>))))"

definition update_sync_state :: "conn \<Rightarrow> string \<Rightarrow> int \<Rightarrow> conn" where
  "update_sync_state c key last_block =
     commit (c\<lparr> pending := (pending c)\<lparr> sync_state := (sync_state (pending c))(key \<mapsto> last_block) \<rparr> \<rparr>)"


definition fetch_market_by_token_id :: "conn \<Rightarrow> string \<Rightarrow> market option" where
  \<comment> \<open>\<^verbatim>\<open>WHERE yes_token_id = ? OR no_token_id = ?\<close>, first row; text is compared
      byte by byte\<close>
  "fetch_market_by_token_id c token =
     find (\<lambda>m. yes_token_id m = token \<or> no_token_id m = token) (markets (pending c))"

section \<open>Indexing pipeline (\<^verbatim>\<open>stage2/src/indexer/run.py\<close>)\<close>

text \<open>
  What the pipeline takes from outside: the hash, the rendering of a Unix time as text
  (\<^verbatim>\<open>datetime.utcfromtimestamp(t).strftime(...)\<close>), the rendering of an amount in
  millionths (\<^verbatim>\<open>str(Decimal(s) / Decimal(10**6))\<close>), and the node that answers the
  log and block queries.
\<close>

record runtime =
  keccak :: "byte list \<Rightarrow> 256 word"
  strftime_utc :: "int \<Rightarrow> string"
  scaled_size :: "string \<Rightarrow> string"

record node =
  eth_get_logs :: "int \<Rightarrow> int \<Rightarrow> string list \<Rightarrow> string list \<Rightarrow> log list"
  eth_block_timestamp :: "int \<Rightarrow> int"

record index_result =
  from_block :: int
  to_block :: int
  total_logs :: nat
  parsed_trades :: nat
  inserted_trades :: nat
  skipped_trades :: nat
  sample_trades :: "trade_record list"

definition get_block_timestamp :: "node \<Rightarrow> int \<Rightarrow> (int \<rightharpoonup> int) \<Rightarrow> int \<times> (int \<rightharpoonup> int)" where
  "get_block_timestamp nd blk cache =
     (case cache blk of
        Some ts \<Rightarrow> (ts, cache)
      | None \<Rightarrow> (eth_block_timestamp nd blk, cache(blk \<mapsto> eth_block_timestamp nd blk)))"

definition format_timestamp :: "runtime \<Rightarrow> int \<Rightarrow> string" where
  "format_timestamp rt unix_timestamp = strftime_utc rt unix_timestamp"

definition parse_trade_from_log :: "runtime \<Rightarrow> log \<Rightarrow> string \<Rightarrow> conn \<Rightarrow> py_error + trade_record option" where
  "parse_trade_from_log rt lg ts c =
     and_then (decode_order_filled (keccak rt) lg) (\<lambda>trade.
       case fetch_market_by_token_id c (token_id trade) of
         None \<Rightarrow> Inr None
       | Some mkt \<Rightarrow>
           Inr (Some
             \<lparr> tx_hash = tx_hash trade,
               log_index = log_index trade,
               exchange = exchange trade,
               order_hash = order_hash trade,
               maker = maker trade,
               taker = taker trade,
               maker_asset_id = maker_asset_id trade,
               taker_asset_id = taker_asset_id trade,
               maker_amount = maker_amount trade,
               taker_amount = taker_amount trade,
               fee = fee trade,
               price = price trade,
               token_id = token_id trade,
               side = side trade,
               trade_market_id = market_id mkt,
               block_number = blockNumber lg,
               timestamp = ts,
               outcome =
                 (if lower (token_id trade) = lower (yes_token_id mkt) then ''YES''
                  else if lower (token_id trade) = lower (no_token_id mkt) then ''NO''
                  else ''UNKNOWN''),
               trade_size = scaled_size rt (if side trade = ''BUY'' then taker_amount trade
                                      else maker_amount trade) \<rparr>))"

fun index_logs :: "runtime \<Rightarrow> node \<Rightarrow> conn \<Rightarrow> log list \<Rightarrow> (int \<rightharpoonup> int) \<Rightarrow> trade_record list \<Rightarrow> nat
                     \<Rightarrow> py_error + trade_record list \<times> nat" where
  \<comment> \<open>the loop over the fetched logs, with its cache, its list of trades and its counter\<close>
  "index_logs rt nd c [] cache trs skipped = Inr (trs, skipped)"
| "index_logs rt nd c (lg # lgs) cache trs skipped =
     (case parse_trade_from_log rt lg
             (format_timestamp rt (fst (get_block_timestamp nd (blockNumber lg) cache))) c of
        Inl e \<Rightarrow> Inl e
      | Inr (Some trade_record) \<Rightarrow>
          index_logs rt nd c lgs (snd (get_block_timestamp nd (blockNumber lg) cache))
            (trs @ [trade_record]) skipped
      | Inr None \<Rightarrow>
          index_logs rt nd c lgs (snd (get_block_timestamp nd (blockNumber lg) cache))
            trs (skipped + 1))"

definition fetch_logs :: "runtime \<Rightarrow> node \<Rightarrow> int \<Rightarrow> int \<Rightarrow> string list \<Rightarrow> log list" where
  "fetch_logs rt nd from_blk to_blk exchange_addresses =
     eth_get_logs nd from_blk to_blk exchange_addresses [ORDER_FILLED_TOPIC (keccak rt)]"

definition run_indexer :: "runtime \<Rightarrow> node \<Rightarrow> conn \<Rightarrow> int \<Rightarrow> int \<Rightarrow> string list option \<Rightarrow> string
                            \<Rightarrow> py_error \<times> conn + index_result \<times> conn" where
  \<comment> \<open>on the left, an exception with the connection as the exception leaves it\<close>
  "run_indexer rt nd c from_blk to_blk exchange_addresses sync_state_key =
     (let addresses = (case exchange_addresses of
                         None \<Rightarrow> [CTF_EXCHANGE, NEGRISK_CTF_EXCHANGE]
                       | Some a \<Rightarrow> a);
          logs = fetch_logs rt nd from_blk to_blk addresses
      in case index_logs rt nd c logs Map.empty [] 0 of
           Inl e \<Rightarrow> Inl (e, c)
         | Inr (trs, skipped) \<Rightarrow>
             (case insert_trades c trs of
                Inl e \<Rightarrow> Inl (e, c)
              | Inr (inserted_count, c1) \<Rightarrow>
                  Inr (\<lparr> from_block = from_blk,
                         to_block = to_blk,
                         total_logs = length logs,
                         parsed_trades = length trs,
                         inserted_trades = inserted_count,
                         skipped_trades = skipped,
                         sample_trades = take 5 trs \<rparr>,
                       update_sync_state c1 sync_state_key to_blk)))"

definition key_stored :: "db \<Rightarrow> string \<times> int \<Rightarrow> bool" where
  \<comment> \<open>a trade with this key is in the table\<close>
  "key_stored d k = (\<exists>r \<in> set (trades d). trade_key (snd r) = k)"

definition unique_keys :: "db \<Rightarrow> bool" where
  \<comment> \<open>the constraint \<^verbatim>\<open>UNIQUE(tx_hash, log_index)\<close> holds of the table\<close>
  "unique_keys d = distinct (map (\<lambda>r. trade_key (snd r)) (trades d))"

section \<open>Market metadata (\<^verbatim>\<open>stage2/src/indexer/discovery.py\<close>)\<close>

text \<open>
  A JSON value as \<^verbatim>\<open>json.loads\<close> and the HTTP client deliver it. The content of a
  floating-point number plays no part here. \<^verbatim>\<open>json.loads\<close> itself is a parameter:
  a function from text to a value, or to nothing where it raises.
\<close>

datatype json =
    JNull
  | JBool bool
  | JInt int
  | JFloat
  | JStr string
  | JList "json list"
  | JObj "(string \<times> json) list"

definition is_ascii_digit :: "char \<Rightarrow> bool" where
  "is_ascii_digit c = (48 \<le> (of_char c :: nat) \<and> (of_char c :: nat) \<le> 57)"

definition py_isdigit :: "string \<Rightarrow> bool" where
  \<comment> \<open>\<^verbatim>\<open>str.isdigit\<close>: not empty and digits only; among the characters of one byte the
      superscripts 1, 2 and 3 count as digits too\<close>
  "py_isdigit s =
     (s \<noteq> [] \<and> list_all (\<lambda>c. is_ascii_digit c \<or> of_char c \<in> {178, 179, 185 :: nat}) s)"

definition dec_value :: "string \<Rightarrow> nat" where
  \<comment> \<open>the number that a text of ASCII digits denotes\<close>
  "dec_value s = foldl (\<lambda>acc c. 10 * acc + (of_char c - 48)) 0 s"

definition py_int :: "string \<Rightarrow> py_error + int" where
  \<comment> \<open>\<^verbatim>\<open>int(s)\<close> on a text for which \<open>isdigit\<close> holds: a superscript digit raises
      ValueError, and so does a text of more than 4300 digits\<close>
  "py_int s =
     (if list_all is_ascii_digit s \<and> length s \<le> 4300 then Inr (int (dec_value s))
      else Inl ValueError)"

fun is_int_or_str :: "json \<Rightarrow> bool" where
  \<comment> \<open>\<^verbatim>\<open>isinstance(v, (int, str))\<close>; a Python bool is an int\<close>
  "is_int_or_str (JInt i) = True"
| "is_int_or_str (JBool b) = True"
| "is_int_or_str (JStr s) = True"
| "is_int_or_str v = False"

fun token_id_text :: "json \<Rightarrow> py_error + string" where
  \<comment> \<open>what becomes of one entry of \<^verbatim>\<open>clobTokenIds\<close>: a text of digits is read as a
      number, a number is written as 64 hexadecimal digits after the prefix, any other
      text is kept as it is\<close>
  "token_id_text (JStr s) =
     (if py_isdigit s then and_then (py_int s) (\<lambda>i. Inr (''0x'' @ format_064x i)) else Inr s)"
| "token_id_text (JInt i) = Inr (''0x'' @ format_064x i)"
| "token_id_text (JBool b) = Inr (''0x'' @ format_064x (if b then 1 else 0))"
| "token_id_text v = Inr []"




text \<open>
  The three ways in which the metadata gives a token id, for stating what is stored for
  each: an integer, a text of decimal digits, and any other text (a hexadecimal one for
  instance).
\<close>

datatype token_input = AsInt nat | AsDecimal string | AsText string

fun as_json :: "token_input \<Rightarrow> json" where
  "as_json (AsInt k) = JInt (int k)"
| "as_json (AsDecimal s) = JStr s"
| "as_json (AsText s) = JStr s"




section \<open>Sample inputs\<close>

text \<open>
  A runtime whose hash is constantly zero, a registry with one market whose positions
  are the tokens 1 and 2, a node that answers every query with a given list of logs, and
  an OrderFilled log of the CTF exchange in which the maker buys 2000000 units of token 1
  for 1000000 units of collateral, with a given taker topic.
\<close>

definition sample_runtime :: runtime where
  "sample_runtime =
     \<lparr> keccak = (\<lambda>bs. 0), strftime_utc = (\<lambda>t. ''1970-01-01T00:00:00''), scaled_size = (\<lambda>s. s) \<rparr>"

definition sample_market :: market where
  "sample_market =
     \<lparr> market_id = 1, event_id = None, slug = ''sample'',
       condition_id = ''0x'' @ replicate 64 (CHR ''c''),
       question_id = ''0x'' @ replicate 64 (CHR ''d''), oracle_address = [],
       collateral_token = ''0x2791Bca1f2de4661ED88A30C99A7a9449Aa84174'',
       yes_token_id = ''0x'' @ replicate 63 (CHR ''0'') @ ''1'',
       no_token_id = ''0x'' @ replicate 63 (CHR ''0'') @ ''2'',
       enable_neg_risk = False, status = ''active'', title = None, description = None \<rparr>"

definition sample_db :: db where
  "sample_db = \<lparr> markets = [sample_market], trades = [], trades_seq = 0, sync_state = Map.empty \<rparr>"

definition sample_node :: "log list \<Rightarrow> node" where
  "sample_node lgs =
     \<lparr> eth_get_logs = (\<lambda>from_blk to_blk addresses tps. lgs), eth_block_timestamp = (\<lambda>blk. 0) \<rparr>"

definition sample_fill :: "byte list \<Rightarrow> log" where
  "sample_fill taker_topic =
     \<lparr> address = CTF_EXCHANGE,
       topics = [HexBytes (digest_bytes 0), HexBytes (replicate 32 0x11),
                 HexBytes (replicate 32 0x22), HexBytes taker_topic],
       data = HexBytes (be_bytes 32 0 @ be_bytes 32 1 @ be_bytes 32 1000000
                        @ be_bytes 32 2000000 @ be_bytes 32 0),
       transactionHash = HexBytes (replicate 32 0xAA), logIndex = 5, blockNumber = 7 \<rparr>"

definition sample_short :: log where
  \<comment> \<open>a log with the event signature as its only topic\<close>
  "sample_short = (sample_fill [])\<lparr> topics := [HexBytes (digest_bytes 0)], logIndex := 4 \<rparr>"

definition exchange_topic :: "byte list" where
  \<comment> \<open>the address of the CTF exchange as a 32-byte topic\<close>
  "exchange_topic =
     replicate 12 0 @
     [0x4b, 0xfb, 0x41, 0xd5, 0xb3, 0x57, 0x0d, 0xef, 0xd0, 0x3c,
      0x39, 0xa9, 0xa4, 0xd8, 0xde, 0x6b, 0xd8, 0xb8, 0x98, 0x2e]"

definition sample_badhex :: log where
  \<comment> \<open>the sample fill with its data payload given as text that is not whole bytes\<close>
  "sample_badhex = (sample_fill (replicate 32 0x33))\<lparr> data := HexStr ''0x0'', logIndex := 4 \<rparr>"

section \<open>Single-transaction decoder (\<^verbatim>\<open>stage1/src/trade_decoder.py\<close>)\<close>

definition ORDER_FILLED_TOPIC_1 :: "(byte list \<Rightarrow> 256 word) \<Rightarrow> string" where
  \<comment> \<open>the constant of this module carries no prefix\<close>
  "ORDER_FILLED_TOPIC_1 K = bytes_hex (digest_bytes (K (ascii_bytes ORDER_FILLED_SIGNATURE)))"

definition parse_order_filled_log :: "(byte list \<Rightarrow> 256 word) \<Rightarrow> log \<Rightarrow> string \<Rightarrow> py_error + Trade" where
  "parse_order_filled_log K lg exch =
     and_then (py_nth (topics lg) 1) (\<lambda>topic1.
     and_then (py_nth (topics lg) 2) (\<lambda>topic2.
     and_then (to_checksum_address K (''0x'' @ last40 (hexval_text topic2))) (\<lambda>maker.
     and_then (py_nth (topics lg) 3) (\<lambda>topic3.
     and_then (to_checksum_address K (''0x'' @ last40 (hexval_text topic3))) (\<lambda>taker.
     and_then (data_bytes_of (data lg)) (\<lambda>data_bytes.
       let maker_asset_id = int_from_bytes (py_slice 0 32 data_bytes);
           taker_asset_id = int_from_bytes (py_slice 32 64 data_bytes);
           maker_amount_filled = int_from_bytes (py_slice 64 96 data_bytes);
           taker_amount_filled = int_from_bytes (py_slice 96 128 data_bytes);
           fee = int_from_bytes (py_slice 128 160 data_bytes)
       in
       and_then (if maker_asset_id = 0
            then fill_price maker_amount_filled taker_amount_filled
            else fill_price taker_amount_filled maker_amount_filled) (\<lambda>price.
         Inr \<lparr> tx_hash = hexval_text (transactionHash lg),
               log_index = logIndex lg,
               exchange = exch,
               order_hash = hexval_text topic1,
               maker = maker,
               taker = taker,
               maker_asset_id = dec_of_nat maker_asset_id,
               taker_asset_id = dec_of_nat taker_asset_id,
               maker_amount = dec_of_nat maker_amount_filled,
               taker_amount = dec_of_nat taker_amount_filled,
               fee = dec_of_nat fee,
               price = price_text price,
               token_id = ''0x'' @ format_064x (int (if maker_asset_id = 0 then taker_asset_id
                                                       else maker_asset_id)),
               side = (if maker_asset_id = 0 then ''BUY'' else ''SELL'') \<rparr>)))))))"

definition known_exchange :: "(byte list \<Rightarrow> 256 word) \<Rightarrow> string \<Rightarrow> py_error + string option" where
  \<comment> \<open>the exchange constant that the checksummed log address matches, if any\<close>
  "known_exchange K log_address =
     and_then (to_checksum_address K CTF_EXCHANGE) (\<lambda>ctf.
       if log_address = ctf then Inr (Some CTF_EXCHANGE)
       else and_then (to_checksum_address K NEGRISK_CTF_EXCHANGE) (\<lambda>neg.
         if log_address = neg then Inr (Some NEGRISK_CTF_EXCHANGE) else Inr None))"

fun decode_logs :: "(byte list \<Rightarrow> 256 word) \<Rightarrow> log list \<Rightarrow> Trade list \<Rightarrow> py_error + Trade list" where
  \<comment> \<open>the loop of \<open>decode_transaction\<close> over the logs of the receipt; logs of other
      contracts, other events and self-fills are passed over, and so is a log on which
      \<open>parse_order_filled_log\<close> raises\<close>
  "decode_logs K [] trs = Inr trs"
| "decode_logs K (lg # lgs) trs =
     and_then (to_checksum_address K (address lg)) (\<lambda>log_address.
     and_then (known_exchange K log_address) (\<lambda>found.
       case found of
         None \<Rightarrow> decode_logs K lgs trs
       | Some exch \<Rightarrow>
           if topics lg = [] then decode_logs K lgs trs
           else if lower (hexval_text (topics lg ! 0)) \<noteq> lower (ORDER_FILLED_TOPIC_1 K)
           then decode_logs K lgs trs
           else
             and_then (py_nth (topics lg) 3) (\<lambda>topic3.
             and_then (to_checksum_address K (''0x'' @ last40 (hexval_text topic3))) (\<lambda>taker_address.
               if lower taker_address = lower exch then decode_logs K lgs trs
               else (case parse_order_filled_log K lg exch of
                       Inr trade \<Rightarrow> decode_logs K lgs (trs @ [trade])
                     | Inl e \<Rightarrow> decode_logs K lgs trs)))))"

definition decode_transaction :: "(byte list \<Rightarrow> 256 word) \<Rightarrow> log list \<Rightarrow> py_error + Trade list" where
  \<comment> \<open>the logs are those of the receipt that the node returns for the transaction hash\<close>
  "decode_transaction K receipt_logs = decode_logs K receipt_logs []"

section \<open>Facts about the primitives\<close>


lemma hex_digit_enum:
  assumes "(n::nat) < 16"
  shows "n \<in> {0,1,2,3,4,5,6,7,8,9,10,11,12,13,14,15}"
  using assms by (simp del: One_nat_def) arith

lemma of_char_hex_digit:
  "n < 16 \<Longrightarrow> of_char (hex_digit n) = (if n < 10 then 48 + n else 87 + n)"
  by (drule hex_digit_enum) (auto simp: hex_digit_def)

lemma hex_val_hex_digit: "n < 16 \<Longrightarrow> hex_val (hex_digit n) = Some n"
  by (simp add: hex_val_def of_char_hex_digit Let_def)

lemma of_char_py_lower:
  "of_char (py_lower c) = (if is_upper (of_char c) then of_char c + 32 else (of_char c :: nat))"
proof (cases "is_upper (of_char c)")
  case True
  then have "of_char c + 32 < (256::nat)" by (auto simp: is_upper_def)
  then have "(of_char c + 32) mod 256 = (of_char c + 32 :: nat)" by simp
  with True show ?thesis by (simp add: py_lower_def Let_def)
next
  case False
  then show ?thesis by (simp add: py_lower_def Let_def)
qed

lemma lower_is_hex_digit:
  assumes "py_lower c = hex_digit n" "n < 16"
  shows "hex_val c = Some n" "\<not> is_space c"
proof -
  have "of_char (py_lower c) = (of_char (hex_digit n) :: nat)" using assms by simp
  then have *: "(if is_upper (of_char c) then of_char c + 32 else (of_char c :: nat)) = (if n < 10 then 48 + n else 87 + n)"
    by (simp only: of_char_py_lower of_char_hex_digit[OF assms(2)])
  show "hex_val c = Some n"
    using * assms(2) by (auto simp: hex_val_def is_upper_def Let_def split: if_splits)
  show "\<not> is_space c"
    using * assms(2) by (auto simp: is_space_def is_upper_def split: if_splits)
qed

lemma fromhex_of_hex:
  "lower ds = bytes_hex bs \<Longrightarrow> bytes_fromhex ds = Inr bs"
proof (induction bs arbitrary: ds)
  case Nil
  then show ?case by (simp add: lower_def)
next
  case (Cons b bs)
  then obtain c d ds' where ds: "ds = c # d # ds'"
    and c: "py_lower c = hex_digit (unat b div 16)"
    and d: "py_lower d = hex_digit (unat b mod 16)"
    and r: "lower ds' = bytes_hex bs"
    by (auto simp: lower_def map_eq_Cons_conv)
  have hi: "unat b div 16 < 16" using unsigned_less[of b, where ?'a = nat] by simp
  have lo: "unat b mod 16 < 16" by simp
  note C = lower_is_hex_digit[OF c hi] and D = lower_is_hex_digit[OF d lo]
  have "of_nat (16 * (unat b div 16) + unat b mod 16) = b" by simp
  with C D Cons.IH[OF r] show ?case by (simp add: ds)
qed

lemma length_be_bytes [simp]: "length (be_bytes n k) = n"
  by (induction n arbitrary: k) auto

lemma length_bytes_hex [simp]: "length (bytes_hex bs) = 2 * length bs"
  by (induction bs) auto

lemma int_from_bytes_snoc: "int_from_bytes (bs @ [b]) = 256 * int_from_bytes bs + unat b"
  by (simp add: int_from_bytes_def)

lemma int_from_be_bytes: "k < 256 ^ n \<Longrightarrow> int_from_bytes (be_bytes n k) = k"
proof (induction n arbitrary: k)
  case 0
  then show ?case by (simp add: int_from_bytes_def)
next
  case (Suc n)
  have "k div 256 < 256 ^ n" using Suc.prems by (simp add: less_mult_imp_div_less mult.commute)
  then have "int_from_bytes (be_bytes n (k div 256)) = k div 256" by (rule Suc.IH)
  moreover have "unat (of_nat k :: byte) = k mod 256" by (simp add: unsigned_of_nat take_bit_eq_mod)
  ultimately show ?case by (simp add: int_from_bytes_snoc)
qed

lemma hex_text_not_prefixed: "is_hex_text s \<Longrightarrow> \<not> startswith s ''0x''"
proof
  assume h: "is_hex_text s" and p: "startswith s ''0x''"
  then obtain r where "s = CHR ''0'' # CHR ''x'' # r"
    by (cases s; cases "tl s") (auto simp: startswith_def)
  with h show False by (simp add: is_hex_text_def hex_val_def)
qed

lemma add_0x_hex: "is_hex_text s \<Longrightarrow> drop 2 (add_0x s) = s"
  by (simp add: add_0x_def hex_text_not_prefixed)

lemma add_0x_prefixed: "drop 2 (add_0x (CHR ''0'' # CHR ''x'' # s)) = s"
  by (simp add: add_0x_def startswith_def)

lemma zfill_hex: "is_hex_text s \<Longrightarrow> zfill w s = lpad w s"
  by (cases s) (auto simp: zfill_def lpad_def is_hex_text_def hex_val_def)

lemma is_hex_text_lpad: "is_hex_text s \<Longrightarrow> is_hex_text (lpad w s)"
proof -
  have "hex_val (CHR ''0'') \<noteq> None" by (simp add: hex_val_def)
  then show "is_hex_text s \<Longrightarrow> is_hex_text (lpad w s)"
    unfolding is_hex_text_def lpad_def by (auto simp: list_all_iff)
qed

lemma lpad_idem: "lpad w (lpad w s) = lpad w s"
  by (simp add: lpad_def)

lemma length_lpad: "length s \<le> w \<Longrightarrow> length (lpad w s) = w"
  by (simp add: lpad_def)

lemma variants_canonical:
  assumes "is_hex_text s" "v \<in> variants w s"
  shows "zfill w (drop 2 (add_0x v)) = lpad w s"
  using assms is_hex_text_lpad[OF assms(1), of w]
  by (auto simp: variants_def add_0x_hex add_0x_prefixed zfill_hex lpad_idem)

lemma hex_val_not_space: "hex_val c \<noteq> None \<Longrightarrow> \<not> is_space c"
  by (auto simp: hex_val_def is_space_def Let_def split: if_splits)

lemma fromhex_hex_text:
  "is_hex_text s \<Longrightarrow> even (length s) \<Longrightarrow> \<exists>bs. bytes_fromhex s = Inr bs \<and> 2 * length bs = length s"
proof (induction s rule: bytes_fromhex.induct)
  case 1
  then show ?case by simp
next
  case (2 c)
  then show ?case by simp
next
  case (3 c d ds)
  then obtain hi lo where "hex_val c = Some hi" "hex_val d = Some lo"
    by (auto simp: is_hex_text_def)
  moreover have "\<not> is_space c" using 3(3) by (simp add: is_hex_text_def hex_val_not_space)
  moreover obtain bs where "bytes_fromhex ds = Inr bs" "2 * length bs = length ds"
    using 3 calculation by (auto simp: is_hex_text_def)
  ultimately show ?case by simp
qed

lemma int_to_bytes_ok: "0 \<le> i \<Longrightarrow> i < 2 ^ 256 \<Longrightarrow> int_to_bytes 32 i = Inr (be_bytes 32 (nat i))"
  by (simp add: int_to_bytes_def)

lemma zfill_exact: "length s = w \<Longrightarrow> zfill w s = s"
  by (simp add: zfill_def)

lemma length_lower [simp]: "length (lower s) = length s"
  by (simp add: lower_def)

lemma hex_of_bytes_len: "lower ds = bytes_hex bs \<Longrightarrow> length ds = 2 * length bs"
  by (metis length_bytes_hex length_lower)

section \<open>Derived identifiers\<close>

text \<open>
  Claim C2. For well-formed inputs (a \<^verbatim>\<open>0x\<close> prefix followed by the hexadecimal digits,
  in either case, of 32 bytes, respectively of the 20 bytes of an address) and an index
  set that fits 256 bits, \<open>get_collection_id\<close> returns the keccak-256 digest of the 96
  bytes parent, condition, index set (the index set as 32 big-endian bytes), and
  \<open>get_position_id\<close> returns the digest of the 52 bytes address, collection: the
  address enters with its 20 bytes, not padded to 32.
\<close>

theorem derived_ids_are_packed_keccak:
  assumes "length pb = 32" and "lower ps = bytes_hex pb"
    and "length cb = 32" and "lower cs = bytes_hex cb"
    and "length tb = 20" and "lower ts = bytes_hex tb"
    and "0 \<le> i" and "i < 2 ^ 256"
  shows "get_collection_id K (''0x'' @ ps) (''0x'' @ cs) i
           = Inr (''0x'' @ bytes_hex (digest_bytes (K (pb @ cb @ be_bytes 32 (nat i)))))
       \<and> length (pb @ cb @ be_bytes 32 (nat i)) = 96
       \<and> int_from_bytes (be_bytes 32 (nat i)) = nat i
       \<and> get_position_id K (''0x'' @ ts) (''0x'' @ cs)
           = Inr (''0x'' @ bytes_hex (digest_bytes (K (tb @ cb))))
       \<and> length (tb @ cb) = 52"
proof -
  have lp: "length ps = 64" and lc: "length cs = 64" and lt: "length ts = 40"
    using assms hex_of_bytes_len by fastforce+
  have p: "bytes_fromhex (zfill 64 (drop 2 (add_0x (''0x'' @ ps)))) = Inr pb"
    using add_0x_prefixed[of ps] by (simp add: zfill_exact lp fromhex_of_hex assms)
  have c: "bytes_fromhex (zfill 64 (drop 2 (add_0x (''0x'' @ cs)))) = Inr cb"
    using add_0x_prefixed[of cs] by (simp add: zfill_exact lc fromhex_of_hex assms)
  have t: "bytes_fromhex (zfill 40 (drop 2 (add_0x (''0x'' @ ts)))) = Inr tb"
    using add_0x_prefixed[of ts] by (simp add: zfill_exact lt fromhex_of_hex assms)
  have n: "nat i < 256 ^ 32" using assms(7,8) by (simp add: nat_less_iff)
  have "get_collection_id K (''0x'' @ ps) (''0x'' @ cs) i
           = Inr (''0x'' @ bytes_hex (digest_bytes (K (pb @ cb @ be_bytes 32 (nat i)))))"
    unfolding get_collection_id_def by (simp only: p c int_to_bytes_ok[OF assms(7,8)] sum.case)
  moreover have "get_position_id K (''0x'' @ ts) (''0x'' @ cs)
           = Inr (''0x'' @ bytes_hex (digest_bytes (K (tb @ cb))))"
    unfolding get_position_id_def by (simp only: t c sum.case)
  moreover have "int_from_bytes (be_bytes 32 (nat i)) = nat i"
    using n by (rule int_from_be_bytes)
  ultimately show ?thesis using assms(1,3,5) by simp
qed

theorem derived_ids_are_packed_keccak_witness:
  "length (replicate 31 0 @ [0xAB :: byte]) = 32
   \<and> lower (replicate 62 (CHR ''0'') @ ''aB'') = bytes_hex (replicate 31 0 @ [0xAB])
   \<and> length (replicate 19 0 @ [0x1F :: byte]) = 20
   \<and> lower (replicate 38 (CHR ''0'') @ ''1F'') = bytes_hex (replicate 19 0 @ [0x1F])
   \<and> (0::int) \<le> 1 \<and> (1::int) < 2 ^ 256
   \<and> get_collection_id (\<lambda>bs. of_nat (length bs))
        (''0x'' @ replicate 62 (CHR ''0'') @ ''aB'') (''0x'' @ replicate 62 (CHR ''0'') @ ''aB'') 1
       = Inr (''0x'' @ bytes_hex (digest_bytes (of_nat (length
            ((replicate 31 0 @ [0xAB :: byte]) @ (replicate 31 0 @ [0xAB :: byte]) @ be_bytes 32 (nat 1))))))
   \<and> get_position_id (\<lambda>bs. of_nat (length bs))
        (''0x'' @ replicate 38 (CHR ''0'') @ ''1F'') (''0x'' @ replicate 62 (CHR ''0'') @ ''aB'')
       = Inr (''0x'' @ bytes_hex (digest_bytes (of_nat (length
            ((replicate 19 0 @ [0x1F :: byte]) @ (replicate 31 0 @ [0xAB :: byte]))))))"
proof -
  have h1: "length (replicate 31 0 @ [0xAB :: byte]) = 32" by simp
  have h2: "lower (replicate 62 (CHR ''0'') @ ''aB'') = bytes_hex (replicate 31 0 @ [0xAB])"
    by code_simp
  have h3: "length (replicate 19 0 @ [0x1F :: byte]) = 20" by simp
  have h4: "lower (replicate 38 (CHR ''0'') @ ''1F'') = bytes_hex (replicate 19 0 @ [0x1F])"
    by code_simp
  have h5: "(0::int) \<le> 1" and h6: "(1::int) < 2 ^ 256" by simp_all
  from derived_ids_are_packed_keccak[OF h1 h2 h1 h2 h3 h4 h5 h6, of "\<lambda>bs. of_nat (length bs)"]
  show ?thesis using h1 h2 h3 h4 h5 h6 by blast
qed

text \<open>
  Claim C10. For texts of hexadecimal digits no longer than the canonical width (64 digits,
  40 for the address), the derived identifier is the same whether the text is given as it
  is, with the \<^verbatim>\<open>0x\<close> prefix, padded on the left with zeros to the canonical width, or
  both; and the derivation returns an identifier for all of them.
\<close>

theorem derived_ids_ignore_prefix_and_padding:
  assumes "is_hex_text p" and "length p \<le> 64"
    and "is_hex_text c" and "length c \<le> 64"
    and "is_hex_text t" and "length t \<le> 40"
    and "0 \<le> i" and "i < 2 ^ 256"
  shows "(\<forall>P \<in> variants 64 p. \<forall>C \<in> variants 64 c.
            get_collection_id K P C i = get_collection_id K p c i)
       \<and> (\<exists>r. get_collection_id K p c i = Inr r)
       \<and> (\<forall>T \<in> variants 40 t. \<forall>C \<in> variants 64 c.
            get_position_id K T C = get_position_id K t c)
       \<and> (\<exists>r. get_position_id K t c = Inr r)"
proof -
  have self: "p \<in> variants 64 p" "c \<in> variants 64 c" "t \<in> variants 40 t"
    by (simp_all add: variants_def)
  have coll: "get_collection_id K P C i = get_collection_id K p c i"
    if "P \<in> variants 64 p" "C \<in> variants 64 c" for P C
    unfolding get_collection_id_def
    by (simp only: variants_canonical[OF assms(1) that(1)] variants_canonical[OF assms(3) that(2)]
        variants_canonical[OF assms(1) self(1)] variants_canonical[OF assms(3) self(2)])
  have pos: "get_position_id K T C = get_position_id K t c"
    if "T \<in> variants 40 t" "C \<in> variants 64 c" for T C
    unfolding get_position_id_def
    by (simp only: variants_canonical[OF assms(5) that(1)] variants_canonical[OF assms(3) that(2)]
        variants_canonical[OF assms(5) self(3)] variants_canonical[OF assms(3) self(2)])
  obtain pb where pb: "bytes_fromhex (lpad 64 p) = Inr pb"
    using fromhex_hex_text[OF is_hex_text_lpad[OF assms(1), of 64]] length_lpad[OF assms(2)] by auto
  obtain cb where cb: "bytes_fromhex (lpad 64 c) = Inr cb"
    using fromhex_hex_text[OF is_hex_text_lpad[OF assms(3), of 64]] length_lpad[OF assms(4)] by auto
  obtain tb where tb: "bytes_fromhex (lpad 40 t) = Inr tb"
    using fromhex_hex_text[OF is_hex_text_lpad[OF assms(5), of 40]] length_lpad[OF assms(6)] by auto
  have "\<exists>r. get_collection_id K p c i = Inr r"
    unfolding get_collection_id_def
    by (simp add: variants_canonical[OF assms(1) self(1)] variants_canonical[OF assms(3) self(2)]
        pb cb int_to_bytes_ok[OF assms(7,8)])
  moreover have "\<exists>r. get_position_id K t c = Inr r"
    unfolding get_position_id_def
    by (simp add: variants_canonical[OF assms(5) self(3)] variants_canonical[OF assms(3) self(2)] tb cb)
  ultimately show ?thesis using coll pos by blast
qed

theorem derived_ids_ignore_prefix_and_padding_witness:
  "is_hex_text ''aB'' \<and> length ''aB'' \<le> 64 \<and> is_hex_text ''1F'' \<and> length ''1F'' \<le> 40
   \<and> (0::int) \<le> 1 \<and> (1::int) < 2 ^ 256
   \<and> ''0xaB'' \<in> variants 64 ''aB''
   \<and> get_collection_id (\<lambda>bs. of_nat (length bs)) ''0xaB'' ''aB'' 1
       = get_collection_id (\<lambda>bs. of_nat (length bs)) ''aB'' ''aB'' 1
   \<and> get_position_id (\<lambda>bs. of_nat (length bs)) ''0x1F'' ''aB''
       = get_position_id (\<lambda>bs. of_nat (length bs)) ''1F'' ''aB''"
proof -
  have h1: "is_hex_text ''aB''" and h2: "is_hex_text ''1F''"
    by (simp_all add: is_hex_text_def hex_val_def)
  have h3: "length ''aB'' \<le> 64" and h4: "length ''1F'' \<le> 40" by simp_all
  have h5: "(0::int) \<le> 1" and h6: "(1::int) < 2 ^ 256" by simp_all
  have v: "''0xaB'' \<in> variants 64 ''aB''" "''aB'' \<in> variants 64 ''aB''"
     "''0x1F'' \<in> variants 40 ''1F''"
    by (simp_all add: variants_def)
  from derived_ids_ignore_prefix_and_padding[OF h1 h3 h1 h3 h2 h4 h5 h6, of "\<lambda>bs. of_nat (length bs)"] v
  show ?thesis using h1 h2 h3 h4 h5 h6 by blast
qed

lemma dec_of_nat_small: "n < 10 \<Longrightarrow> dec_of_nat n = [''0123456789'' ! n]"
  by (simp add: dec_of_nat.simps)

lemma dec_of_nat_large: "10 \<le> n \<Longrightarrow> dec_of_nat n = dec_of_nat (n div 10) @ [''0123456789'' ! (n mod 10)]"
  by (subst dec_of_nat.simps) simp

lemma hex_of_nat_small: "n < 16 \<Longrightarrow> hex_of_nat n = [hex_digit n]"
  by (simp add: hex_of_nat.simps)

lemma hex_of_nat_large: "16 \<le> n \<Longrightarrow> hex_of_nat n = hex_of_nat (n div 16) @ [hex_digit (n mod 16)]"
  by (subst hex_of_nat.simps) simp

lemma strip_zeros_step: "e < 0 \<Longrightarrow> c mod 10 = 0 \<Longrightarrow> strip_zeros c e = strip_zeros (c div 10) (e + 1)"
  by (subst strip_zeros.simps) simp

lemma strip_zeros_stop: "0 \<le> e \<Longrightarrow> strip_zeros c e = Dec c e"
  by (subst strip_zeros.simps) simp

lemma strip_zeros_digit: "c mod 10 \<noteq> 0 \<Longrightarrow> strip_zeros c e = Dec c e"
  by (subst strip_zeros.simps) simp

lemma replicate_pos: "0 < n \<Longrightarrow> replicate n x = x # replicate (n - 1) x"
  by (cases n) simp_all

lemmas eval_numbers = dec_of_nat_small dec_of_nat_large hex_of_nat_small hex_of_nat_large
  strip_zeros_step strip_zeros_stop strip_zeros_digit replicate_pos

lemma hex_val_py_lower: "hex_val (py_lower c) \<noteq> None \<longleftrightarrow> hex_val c \<noteq> None"
proof -
  have "of_char (py_lower c) = (if is_upper (of_char c) then of_char c + 32 else (of_char c :: nat))"
    by (rule of_char_py_lower)
  then show ?thesis by (auto simp: hex_val_def is_upper_def Let_def split: if_splits)
qed

lemma is_hex_text_lower [simp]: "is_hex_text (lower s) = is_hex_text s"
  by (induction s) (auto simp: is_hex_text_def lower_def hex_val_py_lower simp del: not_None_eq)

lemma is_hex_text_drop: "is_hex_text s \<Longrightarrow> is_hex_text (drop n s)"
  unfolding is_hex_text_def list_all_iff by (meson in_set_dropD)

lemma is_hex_text_bytes_hex [simp]: "is_hex_text (bytes_hex bs)"
proof (induction bs)
  case Nil
  then show ?case by (simp add: is_hex_text_def)
next
  case (Cons b bs)
  have "hex_val (hex_digit (unat b div 16)) \<noteq> None" "hex_val (hex_digit (unat b mod 16)) \<noteq> None"
    using hex_val_hex_digit[of "unat b div 16"] hex_val_hex_digit[of "unat b mod 16"]
      unsigned_less[of b, where ?'a = nat] by auto
  with Cons show ?case by (simp add: is_hex_text_def)
qed

lemma to_checksum_address_ok:
  "is_address s \<Longrightarrow> to_checksum_address K s = Inr (''0x'' @ checksum_encode K (lower (strip_0x s)))"
  by (simp add: to_checksum_address_def is_address_def Let_def)

lemma to_checksum_address_bad:
  "\<not> is_address s \<Longrightarrow> to_checksum_address K s = Inl ValueError"
  by (auto simp: to_checksum_address_def is_address_def Let_def)

lemma strip_0x_prefixed [simp]: "strip_0x (CHR ''0'' # CHR ''x'' # s) = s"
  by (simp add: strip_0x_def startswith_def)

lemma topic_is_address:
  "20 \<le> length b \<Longrightarrow> is_address (''0x'' @ last40 (bytes_hex b))"
  by (simp add: is_address_def last40_def is_hex_text_drop)

lemma is_address_CTF: "is_address CTF_EXCHANGE" "is_address NEGRISK_CTF_EXCHANGE"
  by (simp_all add: is_address_def CTF_EXCHANGE_def NEGRISK_CTF_EXCHANGE_def is_hex_text_def hex_val_def)

lemma exchange_of_ok: "\<exists>e. exchange_of K a = Inr e"
  by (simp add: exchange_of_def and_then_def to_checksum_address_ok is_address_CTF)

lemma decimal_div_ok: "b \<noteq> 0 \<Longrightarrow> \<exists>q. decimal_div a b = Inr q"
  by (simp add: decimal_div_def Let_def)

lemma fill_price_ok: "\<exists>q. fill_price a b = Inr q"
  using decimal_div_ok[of b a] by (auto simp: fill_price_def)

lemma length_hex_of_nat: "0 < k \<Longrightarrow> n < 16 ^ k \<Longrightarrow> length (hex_of_nat n) \<le> k"
proof (induction n arbitrary: k rule: hex_of_nat.induct)
  case (1 n)
  show ?case
  proof (cases "n < 16")
    case True
    then show ?thesis using 1(2) by (simp add: hex_of_nat.simps)
  next
    case False
    then obtain j where k: "k = Suc j" and j: "0 < j"
      using 1(2,3) by (cases k; cases "k - 1") auto
    have "n div 16 < 16 ^ j" using 1(3) k by (simp add: less_mult_imp_div_less mult.commute)
    from 1(1)[OF False j this] False k show ?thesis
      by (subst hex_of_nat.simps) simp
  qed
qed

lemma length_format_064x: "n < 2 ^ 256 \<Longrightarrow> length (format_064x (int n)) = 64"
proof -
  assume "n < 2 ^ 256"
  then have "n < 16 ^ 64" by simp
  then have "length (hex_of_nat n) \<le> 64" by (intro length_hex_of_nat) simp_all
  then show ?thesis by (simp add: format_064x_def lpad_def)
qed

lemma slices_of_words:
  assumes "length a = 32" "length b = 32" "length c = 32" "length d = 32" "length e = 32"
  shows "py_slice 0 32 (a @ b @ c @ d @ e) = a"
    and "py_slice 32 64 (a @ b @ c @ d @ e) = b"
    and "py_slice 64 96 (a @ b @ c @ d @ e) = c"
    and "py_slice 96 128 (a @ b @ c @ d @ e) = d"
    and "py_slice 128 160 (a @ b @ c @ d @ e) = e"
  using assms by (simp_all add: py_slice_def)

lemma word_roundtrip: "n < 2 ^ 256 \<Longrightarrow> int_from_bytes (be_bytes 32 n) = n"
  by (rule int_from_be_bytes) simp

lemma price_half: "fill_price 1000000 2000000 = Inr (Dec 5 (-1))"
  by (simp add: fill_price_def decimal_div_def Let_def dec_fix_def eval_numbers)

lemma price_text_half: "price_text (Dec 5 (-1)) = ''0.5''"
  by (simp add: price_text_def format_6f_def lpad_def rstrip_def Let_def eval_numbers)

lemma price_text_zero: "price_text (Dec 0 0) = ''0''"
  by (simp add: price_text_def format_6f_def lpad_def rstrip_def Let_def eval_numbers)

lemma format_064x_one: "format_064x 1 = replicate 63 (CHR ''0'') @ ''1''"
  by (simp add: format_064x_def hex_of_nat.simps lpad_def hex_digit_def)

lemma decode_well_formed:
  assumes addr: "is_address (address lg)"
    and tops: "topics lg = [HexBytes sg, HexBytes oh, HexBytes mk, HexBytes tk]"
    and lens: "length mk = 32" "length tk = 32"
    and dat: "data lg = HexBytes (be_bytes 32 mid @ be_bytes 32 tid @ be_bytes 32 ma
                                  @ be_bytes 32 ta @ be_bytes 32 fe)"
    and rng: "mid < 2 ^ 256" "tid < 2 ^ 256" "ma < 2 ^ 256" "ta < 2 ^ 256" "fe < 2 ^ 256"
  shows "\<exists>ex q. exchange_of K (''0x'' @ checksum_encode K (lower (strip_0x (address lg)))) = Inr ex
      \<and> (if mid = 0 then fill_price ma ta else fill_price ta ma) = Inr q
      \<and> decode_order_filled K lg = Inr
         \<lparr> tx_hash = hexval_text (transactionHash lg), log_index = logIndex lg,
           exchange = ex, order_hash = bytes_hex oh,
           maker = ''0x'' @ checksum_encode K (lower (last40 (bytes_hex mk))),
           taker = ''0x'' @ checksum_encode K (lower (last40 (bytes_hex tk))),
           maker_asset_id = dec_of_nat mid, taker_asset_id = dec_of_nat tid,
           maker_amount = dec_of_nat ma, taker_amount = dec_of_nat ta, fee = dec_of_nat fe,
           price = price_text q,
           token_id = ''0x'' @ format_064x (int (if mid = 0 then tid else mid)),
           side = (if mid = 0 then ''BUY'' else ''SELL'') \<rparr>"
proof -
  obtain ex where ex: "exchange_of K (''0x'' @ checksum_encode K (lower (strip_0x (address lg)))) = Inr ex"
    using exchange_of_ok by blast
  obtain q where q: "(if mid = 0 then fill_price ma ta else fill_price ta ma) = Inr q"
    using fill_price_ok[of ma ta] fill_price_ok[of ta ma] by (cases "mid = 0") auto
  have mk: "to_checksum_address K (''0x'' @ last40 (bytes_hex mk))
              = Inr (''0x'' @ checksum_encode K (lower (last40 (bytes_hex mk))))"
    using to_checksum_address_ok[OF topic_is_address[of mk], of K] lens by simp
  have tk: "to_checksum_address K (''0x'' @ last40 (bytes_hex tk))
              = Inr (''0x'' @ checksum_encode K (lower (last40 (bytes_hex tk))))"
    using to_checksum_address_ok[OF topic_is_address[of tk], of K] lens by simp
  define D where "D = be_bytes 32 mid @ be_bytes 32 tid @ be_bytes 32 ma @ be_bytes 32 ta @ be_bytes 32 fe"
  have sl: "int_from_bytes (py_slice 0 32 D) = mid" "int_from_bytes (py_slice 32 64 D) = tid"
    "int_from_bytes (py_slice 64 96 D) = ma" "int_from_bytes (py_slice 96 128 D) = ta"
    "int_from_bytes (py_slice 128 160 D) = fe"
    unfolding D_def
    by (simp_all only: slices_of_words length_be_bytes word_roundtrip[OF rng(1)]
        word_roundtrip[OF rng(2)] word_roundtrip[OF rng(3)] word_roundtrip[OF rng(4)]
        word_roundtrip[OF rng(5)])
  have dat': "data lg = HexBytes D" by (simp add: dat D_def)
  have "decode_order_filled K lg = Inr
         \<lparr> tx_hash = hexval_text (transactionHash lg), log_index = logIndex lg,
           exchange = ex, order_hash = bytes_hex oh,
           maker = ''0x'' @ checksum_encode K (lower (last40 (bytes_hex mk))),
           taker = ''0x'' @ checksum_encode K (lower (last40 (bytes_hex tk))),
           maker_asset_id = dec_of_nat mid, taker_asset_id = dec_of_nat tid,
           maker_amount = dec_of_nat ma, taker_amount = dec_of_nat ta, fee = dec_of_nat fe,
           price = price_text q,
           token_id = ''0x'' @ format_064x (int (if mid = 0 then tid else mid)),
           side = (if mid = 0 then ''BUY'' else ''SELL'') \<rparr>"
    unfolding decode_order_filled_def
    using q
    by (cases "mid = 0")
       (simp_all add: to_checksum_address_ok[OF addr] ex[simplified] tops dat' py_nth_def
        mk[simplified] tk[simplified] sl and_then_def Let_def)
  with ex q show ?thesis by blast
qed

section \<open>Decimal quotients\<close>

text \<open>
  Rounding is to the nearest integer, and the price texts of some quotients, as the
  interpreter prints them: a recurring fraction, ties at the sixth decimal going to the
  even digit, a whole number, zero.
\<close>

lemma round_half_even_nearest:
  assumes "0 < d"
  shows "2 * \<bar>int (round_half_even n d) * int d - int n\<bar> \<le> int d"
proof -
  define q r where "q = n div d" and "r = n mod d"
  have n: "int n = int q * int d + int r" unfolding q_def r_def
    by (metis div_mult_mod_eq of_nat_add of_nat_mult)
  have r: "r < d" unfolding r_def using assms by simp
  have "round_half_even n d = (if 2 * r < d then q else if d < 2 * r then q + 1 else if even q then q else q + 1)"
    by (simp add: round_half_even_def q_def r_def Let_def)
  then show ?thesis using n r by (auto simp: algebra_simps)
qed

lemma price_examples:
  "map_sum id price_text (decimal_div 1 3) = Inr ''0.333333''"
  "map_sum id price_text (decimal_div 2 3) = Inr ''0.666667''"
  "map_sum id price_text (decimal_div 25 10000000) = Inr ''0.000002''"
  "map_sum id price_text (decimal_div 35 10000000) = Inr ''0.000004''"
  "map_sum id price_text (decimal_div 10 1) = Inr ''10''"
  "map_sum id price_text (decimal_div 0 5) = Inr ''0''"
  "decimal_div 5 0 = Inl ZeroDivisionError"
  by (simp_all add: price_text_def format_6f_def lpad_def rstrip_def decimal_div_def Let_def
      dec_fix_def round_half_even_def eval_numbers)

section \<open>The trade-fill decoder\<close>

text \<open>
  Claim C1. For every OrderFilled log (a valid emitting address, four topics of which the
  maker and the taker topic are 32 bytes, and a data payload of five 32-byte big-endian
  integers makerAssetId, takerAssetId, makerAmountFilled, takerAmountFilled, fee),
  \<open>decode_order_filled\<close> returns a trade. When makerAssetId is 0 its side is BUY, its
  token id is takerAssetId as 64 hexadecimal digits and its price is the rendering of the
  decimal quotient makerAmountFilled / takerAmountFilled, or of zero when
  takerAmountFilled is 0. Otherwise its side is SELL, its token id is makerAssetId and
  its price is the rendering of takerAmountFilled / makerAmountFilled, or of zero when
  makerAmountFilled is 0. In particular makerAssetId 0, takerAssetId 1,
  makerAmountFilled 1000000 and takerAmountFilled 2000000 give side BUY, the token id
  of 63 zeros and a 1 after the prefix, and the price text 0.5.
\<close>

theorem decode_order_filled_side_price:
  assumes "is_address (address lg)"
    and "topics lg = [HexBytes sg, HexBytes oh, HexBytes mk, HexBytes tk]"
    and "length mk = 32" and "length tk = 32"
    and "data lg = HexBytes (be_bytes 32 mid @ be_bytes 32 tid @ be_bytes 32 ma
                             @ be_bytes 32 ta @ be_bytes 32 fe)"
    and "mid < 2 ^ 256" and "tid < 2 ^ 256" and "ma < 2 ^ 256" and "ta < 2 ^ 256"
    and "fe < 2 ^ 256"
  shows "\<exists>t. decode_order_filled K lg = Inr t
     \<and> (mid = 0 \<longrightarrow> side t = ''BUY'' \<and> token_id t = ''0x'' @ lpad 64 (hex_of_nat tid)
           \<and> (ta = 0 \<longrightarrow> price t = ''0'')
           \<and> (ta \<noteq> 0 \<longrightarrow> (\<exists>q. decimal_div ma ta = Inr q \<and> price t = price_text q)))
     \<and> (mid \<noteq> 0 \<longrightarrow> side t = ''SELL'' \<and> token_id t = ''0x'' @ lpad 64 (hex_of_nat mid)
           \<and> (ma = 0 \<longrightarrow> price t = ''0'')
           \<and> (ma \<noteq> 0 \<longrightarrow> (\<exists>q. decimal_div ta ma = Inr q \<and> price t = price_text q)))
     \<and> length (token_id t) = 66
     \<and> (mid = 0 \<and> tid = 1 \<and> ma = 1000000 \<and> ta = 2000000 \<longrightarrow>
           side t = ''BUY'' \<and> token_id t = ''0x'' @ replicate 63 (CHR ''0'') @ ''1''
           \<and> price t = ''0.5'')"
proof -
  from decode_well_formed[OF assms, of K]
  obtain ex q t where q: "(if mid = 0 then fill_price ma ta else fill_price ta ma) = Inr q"
    and d: "decode_order_filled K lg = Inr t"
    and s: "side t = (if mid = 0 then ''BUY'' else ''SELL'')"
    and k: "token_id t = ''0x'' @ format_064x (int (if mid = 0 then tid else mid))"
    and p: "price t = price_text q"
    by fastforce
  have len: "length (token_id t) = 66"
    using length_format_064x[of tid] length_format_064x[of mid] assms(6,7) k by simp
  have buy: "side t = ''BUY'' \<and> token_id t = ''0x'' @ lpad 64 (hex_of_nat tid)
           \<and> (ta = 0 \<longrightarrow> price t = ''0'')
           \<and> (ta \<noteq> 0 \<longrightarrow> (\<exists>q. decimal_div ma ta = Inr q \<and> price t = price_text q))"
    if "mid = 0"
    using that q s k p by (auto simp: fill_price_def format_064x_def price_text_zero)
  have sell: "side t = ''SELL'' \<and> token_id t = ''0x'' @ lpad 64 (hex_of_nat mid)
           \<and> (ma = 0 \<longrightarrow> price t = ''0'')
           \<and> (ma \<noteq> 0 \<longrightarrow> (\<exists>q. decimal_div ta ma = Inr q \<and> price t = price_text q))"
    if "mid \<noteq> 0"
    using that q s k p by (auto simp: fill_price_def format_064x_def price_text_zero)
  have ex1: "side t = ''BUY'' \<and> token_id t = ''0x'' @ replicate 63 (CHR ''0'') @ ''1''
           \<and> price t = ''0.5''"
    if "mid = 0 \<and> tid = 1 \<and> ma = 1000000 \<and> ta = 2000000"
  proof -
    have "q = Dec 5 (-1)" using q that price_half by simp
    then show ?thesis using that s k p format_064x_one price_text_half by simp
  qed
  show ?thesis using d len buy sell ex1 by blast
qed

theorem decode_order_filled_side_price_witness:
  "is_address CTF_EXCHANGE
   \<and> length (replicate 32 (0::byte)) = 32
   \<and> (0::nat) < 2 ^ 256 \<and> (1::nat) < 2 ^ 256 \<and> (1000000::nat) < 2 ^ 256 \<and> (2000000::nat) < 2 ^ 256
   \<and> (\<exists>t. decode_order_filled (\<lambda>bs. 0)
          \<lparr> address = CTF_EXCHANGE,
            topics = [HexBytes (replicate 32 0), HexBytes (replicate 32 0),
                      HexBytes (replicate 32 0), HexBytes (replicate 32 0)],
            data = HexBytes (be_bytes 32 0 @ be_bytes 32 1 @ be_bytes 32 1000000
                             @ be_bytes 32 2000000 @ be_bytes 32 0),
            transactionHash = HexBytes (replicate 32 0), logIndex = 0, blockNumber = 0 \<rparr> = Inr t
        \<and> side t = ''BUY'' \<and> token_id t = ''0x'' @ replicate 63 (CHR ''0'') @ ''1''
        \<and> price t = ''0.5'')"
proof -
  let ?lg = "\<lparr> address = CTF_EXCHANGE,
            topics = [HexBytes (replicate 32 0), HexBytes (replicate 32 0),
                      HexBytes (replicate 32 0), HexBytes (replicate 32 0)],
            data = HexBytes (be_bytes 32 0 @ be_bytes 32 1 @ be_bytes 32 1000000
                             @ be_bytes 32 2000000 @ be_bytes 32 0),
            transactionHash = HexBytes (replicate 32 0), logIndex = 0, blockNumber = 0 \<rparr>"
  have a: "is_address (address ?lg)" using is_address_CTF(1) by simp
  have t: "topics ?lg = [HexBytes (replicate 32 0), HexBytes (replicate 32 0),
                      HexBytes (replicate 32 0), HexBytes (replicate 32 0)]" by simp
  have l: "length (replicate 32 (0::byte)) = 32" by simp
  have d: "data ?lg = HexBytes (be_bytes 32 0 @ be_bytes 32 1 @ be_bytes 32 1000000
                             @ be_bytes 32 2000000 @ be_bytes 32 0)" by simp
  have r: "(0::nat) < 2 ^ 256" "(1::nat) < 2 ^ 256" "(1000000::nat) < 2 ^ 256"
    "(2000000::nat) < 2 ^ 256" by simp_all
  from decode_order_filled_side_price[OF a t l l d r(1) r(2) r(3) r(4) r(1), of "\<lambda>bs. 0"]
  show ?thesis using is_address_CTF(1) l r by blast
qed

section \<open>Storage and pipeline lemmas\<close>

lemma fetch_market_Some:
  "fetch_market_by_token_id c tok = Some m \<Longrightarrow>
     m \<in> set (markets (pending c)) \<and> (yes_token_id m = tok \<or> no_token_id m = tok)"
  unfolding fetch_market_by_token_id_def by (auto simp: find_Some_iff)

lemma fetch_market_None:
  "fetch_market_by_token_id c tok = None \<longleftrightarrow>
     (\<forall>m \<in> set (markets (pending c)). yes_token_id m \<noteq> tok \<and> no_token_id m \<noteq> tok)"
  unfolding fetch_market_by_token_id_def by (auto simp: find_None_iff)

lemma parse_trade_SomeE:
  assumes "parse_trade_from_log rt lg ts c = Inr (Some r)"
  obtains trade mkt where "decode_order_filled (keccak rt) lg = Inr trade"
    and "fetch_market_by_token_id c (token_id trade) = Some mkt"
    and "outcome r = (if lower (token_id trade) = lower (yes_token_id mkt) then ''YES''
                  else if lower (token_id trade) = lower (no_token_id mkt) then ''NO''
                  else ''UNKNOWN'')"
    and "tx_hash r = tx_hash trade" and "log_index r = log_index trade"
    and "token_id r = token_id trade" and "taker r = taker trade" and "exchange r = exchange trade"
    and "trade_market_id r = market_id mkt"
proof (cases "decode_order_filled (keccak rt) lg")
  case (Inl e)
  with assms show ?thesis by (simp add: parse_trade_from_log_def and_then_def)
next
  case (Inr trade)
  show ?thesis
  proof (cases "fetch_market_by_token_id c (token_id trade)")
    case None
    with Inr assms show ?thesis by (simp add: parse_trade_from_log_def and_then_def)
  next
    case (Some mkt)
    with Inr assms have "r = \<lparr> tx_hash = tx_hash trade,
               log_index = log_index trade,
               exchange = exchange trade,
               order_hash = order_hash trade,
               maker = maker trade,
               taker = taker trade,
               maker_asset_id = maker_asset_id trade,
               taker_asset_id = taker_asset_id trade,
               maker_amount = maker_amount trade,
               taker_amount = taker_amount trade,
               fee = fee trade,
               price = price trade,
               token_id = token_id trade,
               side = side trade,
               trade_market_id = market_id mkt,
               block_number = blockNumber lg,
               timestamp = ts,
               outcome =
                 (if lower (token_id trade) = lower (yes_token_id mkt) then ''YES''
                  else if lower (token_id trade) = lower (no_token_id mkt) then ''NO''
                  else ''UNKNOWN''),
               trade_size = scaled_size rt (if side trade = ''BUY'' then taker_amount trade
                                      else maker_amount trade) \<rparr>"
      by (simp add: parse_trade_from_log_def and_then_def)
    then show ?thesis using that[OF Inr Some] by simp
  qed
qed

lemma parse_outcome:
  assumes "parse_trade_from_log rt lg ts c = Inr (Some r)"
  shows "outcome r = ''YES'' \<or> outcome r = ''NO''"
  using assms
proof (rule parse_trade_SomeE)
  fix trade mkt
  assume m: "fetch_market_by_token_id c (token_id trade) = Some mkt"
    and o: "outcome r = (if lower (token_id trade) = lower (yes_token_id mkt) then ''YES''
                  else if lower (token_id trade) = lower (no_token_id mkt) then ''NO''
                  else ''UNKNOWN'')"
  from fetch_market_Some[OF m]
  have "yes_token_id mkt = token_id trade \<or> no_token_id mkt = token_id trade" by simp
  with o show ?thesis by auto
qed

lemma index_logs_outcome:
  assumes "index_logs rt nd c lgs cache trs sk = Inr (trs', sk')"
    and "\<forall>r \<in> set trs. outcome r = ''YES'' \<or> outcome r = ''NO''"
  shows "\<forall>r \<in> set trs'. outcome r = ''YES'' \<or> outcome r = ''NO''"
  using assms
proof (induction lgs arbitrary: cache trs sk)
  case Nil
  then show ?case by simp
next
  case (Cons lg lgs)
  show ?case
  proof (cases "parse_trade_from_log rt lg
             (format_timestamp rt (fst (get_block_timestamp nd (blockNumber lg) cache))) c")
    case (Inl e)
    with Cons.prems show ?thesis by simp
  next
    case (Inr ro)
    show ?thesis
    proof (cases ro)
      case None
      with Inr Cons.prems Cons.IH show ?thesis by simp
    next
      case (Some r)
      with Inr have "outcome r = ''YES'' \<or> outcome r = ''NO''" using parse_outcome by blast
      with Some Inr Cons.prems Cons.IH[of _ "trs @ [r]"] show ?thesis by simp
    qed
  qed
qed

lemma sql_insert_stored:
  "key_stored d (trade_key t) \<Longrightarrow> sql_insert_trade d t = Inl IntegrityError"
  by (simp add: sql_insert_trade_def key_stored_def)

lemma sql_insert_fresh:
  "\<not> key_stored d (trade_key t) \<Longrightarrow>
     sql_insert_trade d t
       = Inr (d\<lparr> trades := trades d @ [(trades_seq d + 1, t)], trades_seq := trades_seq d + 1 \<rparr>)"
  by (simp add: sql_insert_trade_def key_stored_def)

lemma insert_rows_step:
  "insert_rows d (t # ts) n =
     (if key_stored d (trade_key t) then insert_rows d ts n
      else insert_rows (d\<lparr> trades := trades d @ [(trades_seq d + 1, t)],
                            trades_seq := trades_seq d + 1 \<rparr>) ts (n + 1))"
  by (simp add: sql_insert_stored sql_insert_fresh)

lemma key_stored_append:
  "key_stored (d\<lparr> trades := trades d @ [(i, t)], trades_seq := j \<rparr>) k
     \<longleftrightarrow> key_stored d k \<or> trade_key t = k"
  by (auto simp: key_stored_def)

lemma insert_rows_total:
  "\<exists>n' d'. insert_rows d ts n = Inr (n', d')
      \<and> markets d' = markets d \<and> sync_state d' = sync_state d
      \<and> (\<forall>k. key_stored d' k \<longleftrightarrow> key_stored d k \<or> k \<in> trade_key ` set ts)
      \<and> (\<forall>r \<in> set (trades d'). r \<in> set (trades d) \<or> snd r \<in> set ts)
      \<and> (\<exists>new. trades d' = trades d @ new \<and> n' = n + length new)
      \<and> (unique_keys d \<longrightarrow> unique_keys d')"
proof (induction ts arbitrary: d n)
  case Nil
  then show ?case by simp
next
  case (Cons t ts)
  show ?case
  proof (cases "key_stored d (trade_key t)")
    case True
    from Cons.IH[of d n] obtain n' d' where
      "insert_rows d ts n = Inr (n', d')" "markets d' = markets d" "sync_state d' = sync_state d"
      "\<forall>k. key_stored d' k \<longleftrightarrow> key_stored d k \<or> k \<in> trade_key ` set ts"
      "\<forall>r \<in> set (trades d'). r \<in> set (trades d) \<or> snd r \<in> set ts"
      "\<exists>new. trades d' = trades d @ new \<and> n' = n + length new"
      "unique_keys d \<longrightarrow> unique_keys d'"
      by blast
    with True show ?thesis by (auto simp: insert_rows_step simp del: insert_rows.simps)
  next
    case False
    let ?d = "d\<lparr> trades := trades d @ [(trades_seq d + 1, t)], trades_seq := trades_seq d + 1 \<rparr>"
    from Cons.IH[of ?d "n + 1"] obtain n' d' where
      r: "insert_rows ?d ts (n + 1) = Inr (n', d')" and "markets d' = markets ?d"
      "sync_state d' = sync_state ?d"
      and k: "\<forall>k. key_stored d' k \<longleftrightarrow> key_stored ?d k \<or> k \<in> trade_key ` set ts"
      and s: "\<forall>r \<in> set (trades d'). r \<in> set (trades ?d) \<or> snd r \<in> set ts"
      and a: "\<exists>new. trades d' = trades ?d @ new \<and> n' = (n + 1) + length new"
      and u: "unique_keys ?d \<longrightarrow> unique_keys d'"
      by blast
    have u0: "unique_keys d \<longrightarrow> unique_keys ?d"
      using False by (auto simp: unique_keys_def key_stored_def)
    from a obtain new where "trades d' = trades d @ ((trades_seq d + 1, t) # new)"
      "n' = n + length ((trades_seq d + 1, t) # new)" by auto
    then have a': "\<exists>new. trades d' = trades d @ new \<and> n' = n + length new" by blast
    have k': "\<forall>k. key_stored d' k \<longleftrightarrow> key_stored d k \<or> k \<in> trade_key ` set (t # ts)"
      using k by (auto simp: key_stored_append)
    have s': "\<forall>r \<in> set (trades d'). r \<in> set (trades d) \<or> snd r \<in> set (t # ts)"
      using s by auto
    show ?thesis
      using False r \<open>markets d' = markets ?d\<close> \<open>sync_state d' = sync_state ?d\<close> k' s' a' u u0
      by (simp add: insert_rows_step del: insert_rows.simps)
  qed
qed




lemma insert_trades_result:
  obtains n d' where "insert_rows (pending c) ts 0 = Inr (n, d')"
    and "insert_trades c ts = Inr (n, if ts = [] then c else commit (c\<lparr> pending := d' \<rparr>))"
    and "markets d' = markets (pending c)" and "sync_state d' = sync_state (pending c)"
    and "\<forall>k. key_stored d' k \<longleftrightarrow> key_stored (pending c) k \<or> k \<in> trade_key ` set ts"
    and "\<forall>r \<in> set (trades d'). r \<in> set (trades (pending c)) \<or> snd r \<in> set ts"
    and "\<exists>new. trades d' = trades (pending c) @ new \<and> n = length new"
    and "unique_keys (pending c) \<longrightarrow> unique_keys d'"
    and "ts = [] \<longrightarrow> d' = pending c \<and> n = 0"
proof -
  from insert_rows_total[of "pending c" ts 0] obtain n d' where
    r: "insert_rows (pending c) ts 0 = Inr (n, d')"
    and p: "markets d' = markets (pending c)" "sync_state d' = sync_state (pending c)"
    "\<forall>k. key_stored d' k \<longleftrightarrow> key_stored (pending c) k \<or> k \<in> trade_key ` set ts"
    "\<forall>r \<in> set (trades d'). r \<in> set (trades (pending c)) \<or> snd r \<in> set ts"
    "\<exists>new. trades d' = trades (pending c) @ new \<and> n = 0 + length new"
    "unique_keys (pending c) \<longrightarrow> unique_keys d'"
    by blast
  have i: "insert_trades c ts = Inr (n, if ts = [] then c else commit (c\<lparr> pending := d' \<rparr>))"
  proof (cases ts)
    case Nil
    with r show ?thesis by (simp add: insert_trades_def)
  next
    case (Cons t ts')
    with r show ?thesis by (simp add: insert_trades_def and_then_def del: insert_rows.simps)
  qed
  have e: "ts = [] \<longrightarrow> d' = pending c \<and> n = 0" using r by auto
  show ?thesis using that[OF r i p(1,2,3,4) _ p(6) e] p(5) by simp
qed

lemma run_indexer_InrE:
  assumes "run_indexer rt nd c fb tb addrs key = Inr (r, c')"
  obtains trs sk n c1 where
    "index_logs rt nd c (fetch_logs rt nd fb tb (case addrs of None \<Rightarrow> [CTF_EXCHANGE, NEGRISK_CTF_EXCHANGE] | Some a \<Rightarrow> a))
        Map.empty [] 0 = Inr (trs, sk)"
    and "insert_trades c trs = Inr (n, c1)"
    and "c' = update_sync_state c1 key tb"
    and "inserted_trades r = n" and "parsed_trades r = length trs" and "skipped_trades r = sk"
  using assms unfolding run_indexer_def Let_def
  by (auto split: sum.splits prod.splits)


lemma pending_commit [simp]: "pending (commit c) = pending c"
  and durable_commit [simp]: "durable (commit c) = pending c"
  and journal_commit [simp]: "journal (commit c) = journal c @ [pending c]"
  by (simp_all add: commit_def)


lemma run_indexer_states:
  assumes "run_indexer rt nd c fb tb addrs key = Inr (r, c')"
  obtains trs sk d1 where
    "index_logs rt nd c (fetch_logs rt nd fb tb (case addrs of None \<Rightarrow> [CTF_EXCHANGE, NEGRISK_CTF_EXCHANGE] | Some a \<Rightarrow> a))
        Map.empty [] 0 = Inr (trs, sk)"
    and "parsed_trades r = length trs"
    and "insert_rows (pending c) trs 0 = Inr (inserted_trades r, d1)"
    and "markets d1 = markets (pending c)" and "sync_state d1 = sync_state (pending c)"
    and "\<forall>k. key_stored d1 k \<longleftrightarrow> key_stored (pending c) k \<or> k \<in> trade_key ` set trs"
    and "\<forall>row \<in> set (trades d1). row \<in> set (trades (pending c)) \<or> snd row \<in> set trs"
    and "unique_keys (pending c) \<longrightarrow> unique_keys d1"
    and "pending c' = d1\<lparr> sync_state := (sync_state d1)(key \<mapsto> tb) \<rparr>"
    and "durable c' = pending c'"
    and "trs = [] \<longrightarrow> d1 = pending c \<and> journal c' = journal c @ [durable c']"
    and "trs \<noteq> [] \<longrightarrow> journal c' = journal c @ [d1, durable c']"
proof -
  from assms obtain trs sk n c1 where
    i: "index_logs rt nd c (fetch_logs rt nd fb tb (case addrs of None \<Rightarrow> [CTF_EXCHANGE, NEGRISK_CTF_EXCHANGE] | Some a \<Rightarrow> a))
        Map.empty [] 0 = Inr (trs, sk)"
    and t: "insert_trades c trs = Inr (n, c1)"
    and c': "c' = update_sync_state c1 key tb"
    and n: "inserted_trades r = n" and p: "parsed_trades r = length trs"
    by (rule run_indexer_InrE)
  obtain m d1 where
    r: "insert_rows (pending c) trs 0 = Inr (m, d1)"
    and t': "insert_trades c trs = Inr (m, if trs = [] then c else commit (c\<lparr> pending := d1 \<rparr>))"
    and f: "markets d1 = markets (pending c)" "sync_state d1 = sync_state (pending c)"
      "\<forall>k. key_stored d1 k \<longleftrightarrow> key_stored (pending c) k \<or> k \<in> trade_key ` set trs"
      "\<forall>row \<in> set (trades d1). row \<in> set (trades (pending c)) \<or> snd row \<in> set trs"
      "unique_keys (pending c) \<longrightarrow> unique_keys d1"
      "trs = [] \<longrightarrow> d1 = pending c \<and> m = 0"
    by (rule insert_trades_result[of c trs]) blast
  from t t' have m: "m = n" and c1: "c1 = (if trs = [] then c else commit (c\<lparr> pending := d1 \<rparr>))"
    by simp_all
  have pc: "pending c' = d1\<lparr> sync_state := (sync_state d1)(key \<mapsto> tb) \<rparr>"
    using c' c1 f(6) by (simp add: update_sync_state_def)
  have dc: "durable c' = pending c'" using c' by (simp add: update_sync_state_def)
  have j0: "trs = [] \<longrightarrow> d1 = pending c \<and> journal c' = journal c @ [durable c']"
    using c' c1 f(6) by (simp add: update_sync_state_def)
  have j1: "trs \<noteq> [] \<longrightarrow> journal c' = journal c @ [d1, durable c']"
    using c' c1 by (simp add: update_sync_state_def)
  show ?thesis using that[OF i p _ f(1,2,3,4,5) pc dc j0 j1] r m n by simp
qed

lemma key_stored_sync [simp]: "key_stored (d\<lparr> sync_state := s \<rparr>) k = key_stored d k"
  by (simp add: key_stored_def)

lemma unique_keys_sync [simp]: "unique_keys (d\<lparr> sync_state := s \<rparr>) = unique_keys d"
  by (simp add: unique_keys_def)


section \<open>Runs on the sample inputs\<close>

lemma exchange_of_CTF:
  "exchange_of K (''0x'' @ checksum_encode K (lower (strip_0x CTF_EXCHANGE))) = Inr CTF_EXCHANGE"
  by (simp add: exchange_of_def and_then_def to_checksum_address_ok[OF is_address_CTF(1)])

lemma decode_sample_fill:
  assumes "length tk = 32"
  obtains t where "decode_order_filled K (sample_fill tk) = Inr t"
    and "token_id t = ''0x'' @ replicate 63 (CHR ''0'') @ ''1''"
    and "taker t = ''0x'' @ checksum_encode K (lower (last40 (bytes_hex tk)))"
    and "exchange t = CTF_EXCHANGE"
    and "tx_hash t = bytes_hex (replicate 32 0xAA)" and "log_index t = 5"
proof -
  have a: "is_address (address (sample_fill tk))" using is_address_CTF(1) by (simp add: sample_fill_def)
  have t: "topics (sample_fill tk) = [HexBytes (digest_bytes 0), HexBytes (replicate 32 0x11),
                 HexBytes (replicate 32 0x22), HexBytes tk]" by (simp add: sample_fill_def)
  have l: "length (replicate 32 (0x22::byte)) = 32" by simp
  have d: "data (sample_fill tk) = HexBytes (be_bytes 32 0 @ be_bytes 32 1 @ be_bytes 32 1000000
                        @ be_bytes 32 2000000 @ be_bytes 32 0)" by (simp add: sample_fill_def)
  have r: "(0::nat) < 2 ^ 256" "(1::nat) < 2 ^ 256" "(1000000::nat) < 2 ^ 256"
    "(2000000::nat) < 2 ^ 256" by simp_all
  from decode_well_formed[OF a t l assms d r(1) r(2) r(3) r(4) r(1), of K]
  obtain ex q where
    e: "exchange_of K (''0x'' @ checksum_encode K (lower (strip_0x (address (sample_fill tk))))) = Inr ex"
    and de: "decode_order_filled K (sample_fill tk) = Inr
         \<lparr> tx_hash = hexval_text (transactionHash (sample_fill tk)), log_index = logIndex (sample_fill tk),
           exchange = ex, order_hash = bytes_hex (replicate 32 0x11),
           maker = ''0x'' @ checksum_encode K (lower (last40 (bytes_hex (replicate 32 0x22)))),
           taker = ''0x'' @ checksum_encode K (lower (last40 (bytes_hex tk))),
           maker_asset_id = dec_of_nat 0, taker_asset_id = dec_of_nat 1,
           maker_amount = dec_of_nat 1000000, taker_amount = dec_of_nat 2000000, fee = dec_of_nat 0,
           price = price_text q,
           token_id = ''0x'' @ format_064x (int (if (0::nat) = 0 then 1 else 0)),
           side = (if (0::nat) = 0 then ''BUY'' else ''SELL'') \<rparr>"
    by blast
  have "ex = CTF_EXCHANGE" using e exchange_of_CTF[of K] by (simp add: sample_fill_def)
  then show ?thesis using that[OF de] by (simp add: format_064x_one sample_fill_def)
qed

lemma parse_sample_fill:
  assumes "length tk = 32"
  obtains x where
    "parse_trade_from_log sample_runtime (sample_fill tk) ts (connect sample_db) = Inr (Some x)"
    and "taker x = ''0x'' @ checksum_encode (\<lambda>bs. 0) (lower (last40 (bytes_hex tk)))"
    and "exchange x = CTF_EXCHANGE" and "outcome x = ''YES''"
    and "trade_key x = (bytes_hex (replicate 32 0xAA), 5)"
proof -
  obtain t where d: "decode_order_filled (keccak sample_runtime) (sample_fill tk) = Inr t"
    and k: "token_id t = ''0x'' @ replicate 63 (CHR ''0'') @ ''1''"
    and f: "taker t = ''0x'' @ checksum_encode (keccak sample_runtime) (lower (last40 (bytes_hex tk)))"
      "exchange t = CTF_EXCHANGE" "tx_hash t = bytes_hex (replicate 32 0xAA)" "log_index t = 5"
    using decode_sample_fill[OF assms, of "keccak sample_runtime"] by blast
  have m: "fetch_market_by_token_id (connect sample_db) (token_id t) = Some sample_market"
    by (simp add: k fetch_market_by_token_id_def connect_def sample_db_def sample_market_def)
  have y: "yes_token_id sample_market = token_id t" by (simp add: k sample_market_def)
  have kr: "keccak sample_runtime = (\<lambda>bs. 0)" by (simp add: sample_runtime_def)
  show ?thesis
    by (rule that[of "the_elem {x. parse_trade_from_log sample_runtime (sample_fill tk) ts (connect sample_db) = Inr (Some x)}"])
       (simp_all add: parse_trade_from_log_def and_then_def d m y f[unfolded kr] trade_key_def)
qed

lemma index_single:
  assumes "parse_trade_from_log rt lg
             (format_timestamp rt (fst (get_block_timestamp nd (blockNumber lg) cache))) c
           = Inr (Some x)"
  shows "index_logs rt nd c [lg] cache [] 0 = Inr ([x], 0)"
  by (simp add: assms)

lemma run_sample_fill:
  assumes "length tk = 32"
  obtains x r c' where
    "run_indexer sample_runtime (sample_node [sample_fill tk]) (connect sample_db) 7 7 None key
       = Inr (r, c')"
    and "inserted_trades r = 1" and "parsed_trades r = 1" and "skipped_trades r = 0"
    and "journal c' = [sample_db, sample_db\<lparr> trades := [(1, x)], trades_seq := 1 \<rparr>,
                       sample_db\<lparr> trades := [(1, x)], trades_seq := 1,
                                  sync_state := [key \<mapsto> 7] \<rparr>]"
    and "durable c' = sample_db\<lparr> trades := [(1, x)], trades_seq := 1, sync_state := [key \<mapsto> 7] \<rparr>"
    and "taker x = ''0x'' @ checksum_encode (\<lambda>bs. 0) (lower (last40 (bytes_hex tk)))"
    and "exchange x = CTF_EXCHANGE" and "outcome x = ''YES''"
proof -
  let ?ts = "format_timestamp sample_runtime
      (fst (get_block_timestamp (sample_node [sample_fill tk]) (blockNumber (sample_fill tk)) Map.empty))"
  obtain x where
    p: "parse_trade_from_log sample_runtime (sample_fill tk) ?ts (connect sample_db) = Inr (Some x)"
    and f: "taker x = ''0x'' @ checksum_encode (\<lambda>bs. 0) (lower (last40 (bytes_hex tk)))"
      "exchange x = CTF_EXCHANGE" "outcome x = ''YES''"
    using parse_sample_fill[OF assms, of ?ts] by blast
  have i: "index_logs sample_runtime (sample_node [sample_fill tk]) (connect sample_db)
             [sample_fill tk] Map.empty [] 0 = Inr ([x], 0)"
    using p by (rule index_single)
  have lg: "fetch_logs sample_runtime (sample_node [sample_fill tk]) 7 7
              [CTF_EXCHANGE, NEGRISK_CTF_EXCHANGE] = [sample_fill tk]"
    by (simp add: fetch_logs_def sample_node_def)
  have ks: "\<not> key_stored sample_db (trade_key x)" by (simp add: key_stored_def sample_db_def)
  have ins: "insert_trades (connect sample_db) [x]
      = Inr (1, commit ((connect sample_db)\<lparr> pending := sample_db\<lparr> trades := [(1, x)], trades_seq := 1 \<rparr> \<rparr>))"
    using ks
    by (simp add: insert_trades_def and_then_def insert_rows_step connect_def sample_db_def
        del: insert_rows.simps(2))
  define r where "r = \<lparr> from_block = 7, to_block = 7, total_logs = 1,
      parsed_trades = 1, inserted_trades = 1, skipped_trades = 0, sample_trades = [x] \<rparr>"
  define c' where "c' = update_sync_state (commit ((connect sample_db)\<lparr> pending := sample_db\<lparr> trades := [(1, x)], trades_seq := 1 \<rparr> \<rparr>)) key 7"
  have run: "run_indexer sample_runtime (sample_node [sample_fill tk]) (connect sample_db) 7 7 None key
       = Inr (r, c')"
    unfolding run_indexer_def Let_def r_def c'_def
    by (simp add: lg i ins del: index_logs.simps)
  have j: "journal c' = [sample_db, sample_db\<lparr> trades := [(1, x)], trades_seq := 1 \<rparr>,
                       sample_db\<lparr> trades := [(1, x)], trades_seq := 1,
                                  sync_state := [key \<mapsto> 7] \<rparr>]"
    by (simp add: c'_def update_sync_state_def commit_def connect_def sample_db_def)
  have du: "durable c' = sample_db\<lparr> trades := [(1, x)], trades_seq := 1, sync_state := [key \<mapsto> 7] \<rparr>"
    by (simp add: c'_def update_sync_state_def commit_def connect_def sample_db_def)
  show ?thesis using that[OF run _ _ _ j du f] by (simp add: r_def)
qed

lemma len33: "length (replicate 32 (0x33::byte)) = 32" by simp

section \<open>Idempotence of the pipeline\<close>



section \<open>Commit order\<close>




section \<open>Outcome of a resolved trade\<close>

text \<open>
  Claim C9. A market is returned for a token id only when its YES or its NO token id is
  equal to it, so every trade record that \<open>parse_trade_from_log\<close> produces has the
  outcome YES or NO, never UNKNOWN, and every row that a run of the pipeline adds to the
  trades table has the outcome YES or NO.
\<close>

theorem stored_outcome_is_yes_or_no:
  "(\<forall>m. fetch_market_by_token_id c tok = Some m \<longrightarrow> yes_token_id m = tok \<or> no_token_id m = tok)
   \<and> (\<forall>x. parse_trade_from_log rt lg ts c = Inr (Some x) \<longrightarrow>
          outcome x = ''YES'' \<or> outcome x = ''NO'')
   \<and> (\<forall>r c'. run_indexer rt nd c fb tb addrs key = Inr (r, c') \<longrightarrow>
          (\<forall>row \<in> set (trades (pending c')).
              row \<in> set (trades (pending c))
              \<or> outcome (snd row) = ''YES'' \<or> outcome (snd row) = ''NO''))"
proof -
  have a: "yes_token_id m = tok \<or> no_token_id m = tok"
    if "fetch_market_by_token_id c tok = Some m" for m
    using fetch_market_Some[OF that] by simp
  have b: "outcome x = ''YES'' \<or> outcome x = ''NO''"
    if "parse_trade_from_log rt lg ts c = Inr (Some x)" for x
    using that by (rule parse_outcome)
  have d: "\<forall>row \<in> set (trades (pending c')).
              row \<in> set (trades (pending c))
              \<or> outcome (snd row) = ''YES'' \<or> outcome (snd row) = ''NO''"
    if "run_indexer rt nd c fb tb addrs key = Inr (r, c')" for r c'
    using that
  proof (rule run_indexer_states)
    fix trs sk d1
    assume i: "index_logs rt nd c (fetch_logs rt nd fb tb (case addrs of None \<Rightarrow> [CTF_EXCHANGE, NEGRISK_CTF_EXCHANGE] | Some a \<Rightarrow> a))
        Map.empty [] 0 = Inr (trs, sk)"
      and s: "\<forall>row \<in> set (trades d1). row \<in> set (trades (pending c)) \<or> snd row \<in> set trs"
      and p: "pending c' = d1\<lparr> sync_state := (sync_state d1)(key \<mapsto> tb) \<rparr>"
    have "\<forall>x \<in> set trs. outcome x = ''YES'' \<or> outcome x = ''NO''"
      using index_logs_outcome[OF i] by simp
    with s p show ?thesis by auto
  qed
  show ?thesis using a b d by blast
qed

theorem stored_outcome_is_yes_or_no_witness:
  "\<exists>r c' x. run_indexer sample_runtime (sample_node [sample_fill (replicate 32 0x33)])
             (connect sample_db) 7 7 None ''trade_indexer'' = Inr (r, c')
     \<and> trades (pending (connect sample_db)) = []
     \<and> trades (pending c') = [(1, x)]
     \<and> (outcome x = ''YES'' \<or> outcome x = ''NO'')"
proof -
  obtain x r c' where run:
    "run_indexer sample_runtime (sample_node [sample_fill (replicate 32 0x33)])
          (connect sample_db) 7 7 None ''trade_indexer'' = Inr (r, c')"
    and d: "durable c' = sample_db\<lparr> trades := [(1, x)], trades_seq := 1,
                                     sync_state := [''trade_indexer'' \<mapsto> 7] \<rparr>"
    using run_sample_fill[OF len33, of "''trade_indexer''"] by metis
  have "pending c' = durable c'" using run by (rule run_indexer_states) simp
  then have t: "trades (pending c') = [(1, x)]" using d by simp
  have e: "trades (pending (connect sample_db)) = []" by (simp add: connect_def sample_db_def)
  from stored_outcome_is_yes_or_no[of "connect sample_db" "[]" sample_runtime
      "sample_fill (replicate 32 0x33)" "[]" "sample_node [sample_fill (replicate 32 0x33)]"
      7 7 None "''trade_indexer''"] run
  have "\<forall>row \<in> set (trades (pending c')).
              row \<in> set (trades (pending (connect sample_db)))
              \<or> outcome (snd row) = ''YES'' \<or> outcome (snd row) = ''NO''"
    by blast
  with t e have "outcome x = ''YES'' \<or> outcome x = ''NO''" by simp
  with run t e show ?thesis by blast
qed

section \<open>Resolving a token id\<close>

lemma lower_0xAB: "lower ''0xAB'' = ''0xab''" "lower ''0xab'' = ''0xab''"
  by code_simp+

text \<open>
  The lookup is exact: it returns none exactly when no stored market has a YES or NO token
  id equal to the queried one, character for character, and a market that it returns is
  a stored market one of whose two token ids is equal to the queried one.
\<close>

lemma resolve_matches_exactly:
  "(fetch_market_by_token_id c tok = None \<longleftrightarrow>
      (\<forall>m \<in> set (markets (pending c)). yes_token_id m \<noteq> tok \<and> no_token_id m \<noteq> tok))
   \<and> (\<forall>m. fetch_market_by_token_id c tok = Some m \<longrightarrow>
          m \<in> set (markets (pending c)) \<and> (yes_token_id m = tok \<or> no_token_id m = tok))"
  using fetch_market_None[of c tok] fetch_market_Some[of c tok] by blast

text \<open>
  Claim C7. The specification asks that resolving a token id match the positions of the
  stored markets without regard to letter case. With a market stored under the YES token
  id \<^verbatim>\<open>0xAB\<close>, the query \<^verbatim>\<open>0xAB\<close> resolves to that market, while the query
  \<^verbatim>\<open>0xab\<close>, equal to the stored id once both are lower-cased, resolves to none.
\<close>

theorem resolve_is_case_sensitive:
  "lower ''0xab'' = lower (yes_token_id (sample_market\<lparr> yes_token_id := ''0xAB'' \<rparr>))
   \<and> fetch_market_by_token_id
        (connect (sample_db\<lparr> markets := [sample_market\<lparr> yes_token_id := ''0xAB'' \<rparr>] \<rparr>)) ''0xAB''
       = Some (sample_market\<lparr> yes_token_id := ''0xAB'' \<rparr>)
   \<and> fetch_market_by_token_id
        (connect (sample_db\<lparr> markets := [sample_market\<lparr> yes_token_id := ''0xAB'' \<rparr>] \<rparr>)) ''0xab''
       = None"
  by (simp add: lower_0xAB fetch_market_by_token_id_def connect_def sample_db_def sample_market_def)

section \<open>Logs that the two decoders treat differently\<close>

lemma checksum_encode_zero: "checksum_encode (\<lambda>bs. 0) h = h"
proof -
  have "map (\<lambda>(i, c). c) (zip [0..<length h] h) = h"
    by (metis (no_types, lifting) case_prod_unfold length_upt map_eq_conv map_snd_zip minus_nat.diff_0)
  then show ?thesis by (simp add: checksum_encode_def nibble_def)
qed

lemma exchange_topic_text: "lower (last40 (bytes_hex exchange_topic)) = drop 2 (lower CTF_EXCHANGE)"
  by code_simp

lemma lower_idem_CTF: "lower (''0x'' @ drop 2 (lower CTF_EXCHANGE)) = lower CTF_EXCHANGE"
  by code_simp

lemma len_exchange_topic: "length exchange_topic = 32"
  by (simp add: exchange_topic_def)

lemma decode_sample_short: "decode_order_filled K sample_short = Inl IndexError"
proof -
  obtain e where "exchange_of K (''0x'' @ checksum_encode K (lower (strip_0x CTF_EXCHANGE))) = Inr e"
    using exchange_of_ok by blast
  then show ?thesis
    by (simp add: decode_order_filled_def and_then_def sample_short_def sample_fill_def
        to_checksum_address_ok[OF is_address_CTF(1)] py_nth_def)
qed

lemma parse_order_filled_log_fields:
  assumes "parse_order_filled_log K lg exch = Inr t"
  shows "exchange t = exch"
    and "\<exists>topic3. py_nth (topics lg) 3 = Inr topic3
           \<and> to_checksum_address K (''0x'' @ last40 (hexval_text topic3)) = Inr (taker t)"
  using assms unfolding parse_order_filled_log_def and_then_def Let_def
  by (auto split: sum.splits)

lemma decode_logs_no_self_fill:
  assumes "decode_logs K lgs trs = Inr out"
    and "\<forall>t \<in> set trs. lower (taker t) \<noteq> lower (exchange t)"
  shows "\<forall>t \<in> set out. lower (taker t) \<noteq> lower (exchange t)"
  using assms
proof (induction lgs arbitrary: trs)
  case Nil
  then show ?case by simp
next
  case (Cons lg lgs)
  from Cons.prems(1) obtain a where a: "to_checksum_address K (address lg) = Inr a"
    by (auto simp: and_then_def split: sum.splits)
  from Cons.prems(1) a obtain found where f: "known_exchange K a = Inr found"
    by (auto simp: and_then_def split: sum.splits)
  show ?case
  proof (cases found)
    case None
    with Cons a f show ?thesis by (simp add: and_then_def)
  next
    case (Some exch)
    show ?thesis
    proof (cases "topics lg = [] \<or> lower (hexval_text (topics lg ! 0)) \<noteq> lower (ORDER_FILLED_TOPIC_1 K)")
      case True
      then have "decode_logs K (lg # lgs) trs = decode_logs K lgs trs"
        using a f Some by (auto simp: and_then_def)
      with Cons show ?thesis by auto
    next
      case False
      with Cons.prems(1) a f Some obtain topic3 where t3: "py_nth (topics lg) 3 = Inr topic3"
        by (auto simp: and_then_def split: sum.splits)
      with False Cons.prems(1) a f Some obtain ta where
        ta: "to_checksum_address K (''0x'' @ last40 (hexval_text topic3)) = Inr ta"
        by (auto simp: and_then_def split: sum.splits)
      show ?thesis
      proof (cases "lower ta = lower exch")
        case True
        then have "decode_logs K (lg # lgs) trs = decode_logs K lgs trs"
          using False a f Some t3 ta by (auto simp: and_then_def)
        with Cons show ?thesis by auto
      next
        case ne: False
        show ?thesis
        proof (cases "parse_order_filled_log K lg exch")
          case (Inl e)
          then have "decode_logs K (lg # lgs) trs = decode_logs K lgs trs"
            using ne False a f Some t3 ta by (auto simp: and_then_def)
          with Cons show ?thesis by auto
        next
          case (Inr trade)
          from parse_order_filled_log_fields[OF Inr] t3 ta
          have "exchange trade = exch" "taker trade = ta" by auto
          with ne have "\<forall>t \<in> set (trs @ [trade]). lower (taker t) \<noteq> lower (exchange t)"
            using Cons.prems(2) by auto
          moreover have "decode_logs K lgs (trs @ [trade]) = Inr out"
            using ne False Cons.prems(1) a f Some t3 ta Inr by (auto simp: and_then_def)
          ultimately show ?thesis using Cons.IH by blast
        qed
      qed
    qed
  qed
qed

lemma known_exchange_CTF:
  "known_exchange K (''0x'' @ checksum_encode K (lower (strip_0x CTF_EXCHANGE))) = Inr (Some CTF_EXCHANGE)"
  by (simp add: known_exchange_def and_then_def to_checksum_address_ok[OF is_address_CTF(1)])

lemma decode_transaction_self_fill:
  "decode_transaction (\<lambda>bs. 0) [sample_fill exchange_topic] = Inr []"
proof -
  let ?K = "\<lambda>bs::byte list. 0::256 word"
  have a: "to_checksum_address ?K (address (sample_fill exchange_topic))
             = Inr (''0x'' @ checksum_encode ?K (lower (strip_0x CTF_EXCHANGE)))"
    using to_checksum_address_ok[OF is_address_CTF(1), of ?K] by (simp add: sample_fill_def)
  have t: "topics (sample_fill exchange_topic) = [HexBytes (digest_bytes 0), HexBytes (replicate 32 0x11),
                 HexBytes (replicate 32 0x22), HexBytes exchange_topic]"
    by (simp add: sample_fill_def)
  have t0: "lower (hexval_text (topics (sample_fill exchange_topic) ! 0)) = lower (ORDER_FILLED_TOPIC_1 ?K)"
    by (simp add: t ORDER_FILLED_TOPIC_1_def)
  have t3: "py_nth (topics (sample_fill exchange_topic)) 3 = Inr (HexBytes exchange_topic)"
    by (simp add: t py_nth_def)
  have ta: "to_checksum_address ?K (''0x'' @ last40 (hexval_text (HexBytes exchange_topic)))
              = Inr (''0x'' @ drop 2 (lower CTF_EXCHANGE))"
    using to_checksum_address_ok[OF topic_is_address[of exchange_topic], of ?K]
    by (simp add: len_exchange_topic checksum_encode_zero exchange_topic_text)
  have eq: "lower (''0x'' @ drop 2 (lower CTF_EXCHANGE)) = lower CTF_EXCHANGE"
    by (rule lower_idem_CTF)
  have ne: "topics (sample_fill exchange_topic) \<noteq> []" by (simp add: t)
  show ?thesis
    unfolding decode_transaction_def
    by (simp add: a[simplified] known_exchange_CTF[simplified] and_then_def ne t0 t3
        ta[simplified] eq[simplified])
qed

lemma decode_as_parse:
  assumes "decode_order_filled K lg = Inr t"
  shows "parse_order_filled_log K lg exch = Inr (t\<lparr> exchange := exch \<rparr>)"
  using assms unfolding decode_order_filled_def parse_order_filled_log_def and_then_def Let_def
  by (auto split: sum.splits)

lemma taker33: "lower (''0x'' @ lower (last40 (bytes_hex (replicate 32 (0x33::byte))))) \<noteq> lower CTF_EXCHANGE"
  by code_simp

lemma data_badhex: "data_bytes_of (HexStr ''0x0'') = Inl ValueError"
  by (simp add: add_0x_def startswith_def is_space_def)

lemma decode_sample_badhex: "decode_order_filled K sample_badhex = Inl ValueError"
proof -
  obtain e where e: "exchange_of K (''0x'' @ checksum_encode K (lower (strip_0x CTF_EXCHANGE))) = Inr e"
    using exchange_of_ok by blast
  have m: "to_checksum_address K (''0x'' @ last40 (bytes_hex (replicate 32 0x22)))
             = Inr (''0x'' @ checksum_encode K (lower (last40 (bytes_hex (replicate 32 0x22)))))"
    using to_checksum_address_ok[OF topic_is_address[of "replicate 32 0x22"], of K] by simp
  have k: "to_checksum_address K (''0x'' @ last40 (bytes_hex (replicate 32 0x33)))
             = Inr (''0x'' @ checksum_encode K (lower (last40 (bytes_hex (replicate 32 0x33)))))"
    using to_checksum_address_ok[OF topic_is_address[of "replicate 32 0x33"], of K] by simp
  show ?thesis
    by (simp add: decode_order_filled_def and_then_def sample_badhex_def sample_fill_def
        to_checksum_address_ok[OF is_address_CTF(1)] py_nth_def e[simplified] m[simplified]
        k[simplified] data_badhex[simplified])
qed

lemma parse_sample_badhex: "parse_order_filled_log K sample_badhex exch = Inl ValueError"
proof -
  have m: "to_checksum_address K (''0x'' @ last40 (bytes_hex (replicate 32 0x22)))
             = Inr (''0x'' @ checksum_encode K (lower (last40 (bytes_hex (replicate 32 0x22)))))"
    using to_checksum_address_ok[OF topic_is_address[of "replicate 32 0x22"], of K] by simp
  have k: "to_checksum_address K (''0x'' @ last40 (bytes_hex (replicate 32 0x33)))
             = Inr (''0x'' @ checksum_encode K (lower (last40 (bytes_hex (replicate 32 0x33)))))"
    using to_checksum_address_ok[OF topic_is_address[of "replicate 32 0x33"], of K] by simp
  show ?thesis
    by (simp add: parse_order_filled_log_def and_then_def sample_badhex_def sample_fill_def
        py_nth_def m[simplified] k[simplified] data_badhex[simplified])
qed

lemma decode_logs_step33:
  assumes "address lg = CTF_EXCHANGE"
    and "topics lg = [HexBytes (digest_bytes 0), t1, t2, HexBytes (replicate 32 0x33)]"
  shows "decode_logs (\<lambda>bs. 0) (lg # lgs) trs =
           (case parse_order_filled_log (\<lambda>bs. 0) lg CTF_EXCHANGE of
              Inr trade \<Rightarrow> decode_logs (\<lambda>bs. 0) lgs (trs @ [trade])
            | Inl e \<Rightarrow> decode_logs (\<lambda>bs. 0) lgs trs)"
proof -
  let ?K = "\<lambda>bs::byte list. 0::256 word"
  have a: "to_checksum_address ?K (address lg)
             = Inr (''0x'' @ checksum_encode ?K (lower (strip_0x CTF_EXCHANGE)))"
    using to_checksum_address_ok[OF is_address_CTF(1), of ?K] by (simp add: assms)
  have t0: "lower (hexval_text (topics lg ! 0)) = lower (ORDER_FILLED_TOPIC_1 ?K)"
    by (simp add: assms ORDER_FILLED_TOPIC_1_def)
  have t3: "py_nth (topics lg) 3 = Inr (HexBytes (replicate 32 0x33))"
    by (simp add: assms py_nth_def)
  have ta: "to_checksum_address ?K (''0x'' @ last40 (hexval_text (HexBytes (replicate 32 0x33))))
              = Inr (''0x'' @ lower (last40 (bytes_hex (replicate 32 0x33))))"
    using to_checksum_address_ok[OF topic_is_address[of "replicate 32 0x33"], of ?K]
    by (simp add: checksum_encode_zero)
  have ne: "topics lg \<noteq> []" by (simp add: assms)
  show ?thesis
    by (simp add: a[simplified] known_exchange_CTF[simplified] and_then_def ne t0 t3
        ta[simplified] taker33[simplified])
qed

lemma stage1_skips_badhex:
  "\<exists>t. decode_transaction (\<lambda>bs. 0) [sample_badhex, sample_fill (replicate 32 0x33)] = Inr [t]"
proof -
  obtain t where d: "decode_order_filled (\<lambda>bs. 0) (sample_fill (replicate 32 0x33)) = Inr t"
    using decode_sample_fill[OF len33] by blast
  have 1: "decode_logs (\<lambda>bs. 0) (sample_badhex # lgs) trs = decode_logs (\<lambda>bs. 0) lgs trs" for lgs trs
    by (subst decode_logs_step33[where ?t1.0 = "HexBytes (replicate 32 0x11)" and ?t2.0 = "HexBytes (replicate 32 0x22)"])
       (simp_all add: sample_badhex_def sample_fill_def parse_sample_badhex[unfolded sample_badhex_def sample_fill_def, simplified])
  have 2: "decode_logs (\<lambda>bs. 0) (sample_fill (replicate 32 0x33) # lgs) trs
             = decode_logs (\<lambda>bs. 0) lgs (trs @ [t\<lparr> exchange := CTF_EXCHANGE \<rparr>])" for lgs trs
    by (subst decode_logs_step33[where ?t1.0 = "HexBytes (replicate 32 0x11)" and ?t2.0 = "HexBytes (replicate 32 0x22)"])
       (simp_all add: sample_fill_def decode_as_parse[OF d, unfolded sample_fill_def, simplified])
  show ?thesis unfolding decode_transaction_def by (simp only: 1 2) simp
qed

text \<open>
  Claim C4. The specification asks that a log whose taker is the emitting exchange
  contribute no trade. On the sample fill whose taker topic is the address of the CTF
  exchange, \<open>decode_transaction\<close> returns no trade, while \<open>run_indexer\<close> inserts one
  trade whose taker is the exchange.
\<close>

theorem self_fill_is_indexed_by_pipeline:
  "decode_transaction (\<lambda>bs. 0) [sample_fill exchange_topic] = Inr []
   \<and> (case run_indexer sample_runtime (sample_node [sample_fill exchange_topic])
          (connect sample_db) 7 7 None ''trade_indexer'' of
        Inl e \<Rightarrow> False
      | Inr (r, c') \<Rightarrow>
          inserted_trades r = 1
          \<and> map (\<lambda>row. (lower (taker (snd row)), lower (exchange (snd row)))) (trades (durable c'))
              = [(lower CTF_EXCHANGE, lower CTF_EXCHANGE)])"
proof -
  obtain x r c' where
    "run_indexer sample_runtime (sample_node [sample_fill exchange_topic])
          (connect sample_db) 7 7 None ''trade_indexer'' = Inr (r, c')"
    "inserted_trades r = 1"
    "durable c' = sample_db\<lparr> trades := [(1, x)], trades_seq := 1,
                                  sync_state := [''trade_indexer'' \<mapsto> 7] \<rparr>"
    "taker x = ''0x'' @ checksum_encode (\<lambda>bs. 0) (lower (last40 (bytes_hex exchange_topic)))"
    "exchange x = CTF_EXCHANGE"
    using run_sample_fill[OF len_exchange_topic, of "''trade_indexer''"] by metis
  then show ?thesis
    by (simp add: decode_transaction_self_fill checksum_encode_zero exchange_topic_text
        lower_idem_CTF[simplified])
qed

text \<open>
  Claim C5. The specification asks that a log that fails to decode be skipped and the rest
  of the batch be processed. A batch of a log with one topic and a well-formed fill, and
  a batch of a log whose data is not whole bytes and the same fill, both leave
  \<open>run_indexer\<close> by the exception of the first log with nothing written, while the fill
  alone is inserted; \<open>decode_transaction\<close> passes over the log with the bad data and
  returns the trade of the fill.
\<close>

theorem decode_failure_aborts_batch:
  "run_indexer sample_runtime (sample_node [sample_short, sample_fill (replicate 32 0x33)])
      (connect sample_db) 7 7 None ''trade_indexer'' = Inl (IndexError, connect sample_db)
   \<and> run_indexer sample_runtime (sample_node [sample_badhex, sample_fill (replicate 32 0x33)])
      (connect sample_db) 7 7 None ''trade_indexer'' = Inl (ValueError, connect sample_db)
   \<and> (\<exists>t. decode_transaction (\<lambda>bs. 0) [sample_badhex, sample_fill (replicate 32 0x33)] = Inr [t])
   \<and> (case run_indexer sample_runtime (sample_node [sample_fill (replicate 32 0x33)])
          (connect sample_db) 7 7 None ''trade_indexer'' of
        Inl e \<Rightarrow> False
      | Inr (r, c') \<Rightarrow> inserted_trades r = 1 \<and> skipped_trades r = 0)"
proof -
  have "index_logs sample_runtime nd (connect sample_db) (sample_short # lgs) Map.empty [] 0
          = Inl IndexError" for nd lgs
    by (simp add: parse_trade_from_log_def and_then_def decode_sample_short)
  then have a: "run_indexer sample_runtime (sample_node [sample_short, sample_fill (replicate 32 0x33)])
      (connect sample_db) 7 7 None ''trade_indexer'' = Inl (IndexError, connect sample_db)"
    unfolding run_indexer_def Let_def
    by (simp add: fetch_logs_def sample_node_def del: index_logs.simps)
  have "index_logs sample_runtime nd (connect sample_db) (sample_badhex # lgs) Map.empty [] 0
          = Inl ValueError" for nd lgs
    by (simp add: parse_trade_from_log_def and_then_def decode_sample_badhex)
  then have b: "run_indexer sample_runtime (sample_node [sample_badhex, sample_fill (replicate 32 0x33)])
      (connect sample_db) 7 7 None ''trade_indexer'' = Inl (ValueError, connect sample_db)"
    unfolding run_indexer_def Let_def
    by (simp add: fetch_logs_def sample_node_def del: index_logs.simps)
  obtain x r c' where
    "run_indexer sample_runtime (sample_node [sample_fill (replicate 32 0x33)])
          (connect sample_db) 7 7 None ''trade_indexer'' = Inr (r, c')"
    "inserted_trades r = 1" "skipped_trades r = 0"
    using run_sample_fill[OF len33, of "''trade_indexer''"] by metis
  with a b stage1_skips_badhex show ?thesis by simp
qed

section \<open>Token ids of the market metadata\<close>





lemma token_id_text_other: "\<not> py_isdigit s \<Longrightarrow> token_id_text (JStr s) = Inr s"
  by simp




lemma is_int_or_str_input [simp]: "is_int_or_str (as_json a)"
  by (cases a) simp_all





end
